theory Spec2Isabelle
  imports Complex_Main
begin

section \<open>gkb\_cpu\_monitor: keyboard colour from the CPU load, blinking on notifications\<close>

text \<open>
  The embedding follows \<^verbatim>\<open>gkb_cpu_monitor.py\<close> function by function.

  Python integers are \<^typ>\<open>int\<close>. A Python float is a rational number: each float
  operation of the source is the exact operation followed by a rounding to a
  representable value, and that rounding is the parameter \<open>rnd\<close> of every function that
  computes with floats. What is known of it is \<open>float_rounding\<close> below. The floats
  of the computations are finite; the interval of a setting is read by \<^verbatim>\<open>float\<close> from a
  text and can be an infinity or NaN, so it is a \<open>py_float\<close>.
\<close>

subsection \<open>Python numbers\<close>

definition float_rounding :: "(rat \<Rightarrow> rat) \<Rightarrow> bool" where
  \<comment> \<open>rounding is monotone and keeps every half-integer of magnitude up to \<open>2 ^ 52\<close>\<close>
  "float_rounding rnd \<longleftrightarrow>
     (\<forall>x y. x \<le> y \<longrightarrow> rnd x \<le> rnd y) \<and>
     (\<forall>n::int. \<bar>n\<bar> \<le> 2 ^ 53 \<longrightarrow> rnd (of_int n / 2) = of_int n / 2)"

definition py_int :: "rat \<Rightarrow> int" where
  \<comment> \<open>\<^verbatim>\<open>int(x)\<close> on a float truncates towards zero\<close>
  "py_int x = (if 0 \<le> x then \<lfloor>x\<rfloor> else \<lceil>x\<rceil>)"

datatype py_float =
    Fin rat  \<comment> \<open>a finite float\<close>
  | PInf  \<comment> \<open>\<^verbatim>\<open>float('inf')\<close>\<close>
  | MInf  \<comment> \<open>\<^verbatim>\<open>float('-inf')\<close>\<close>
  | NaN

subsection \<open>General purpose functions\<close>

definition limit :: "'a::linorder \<Rightarrow> 'a \<Rightarrow> 'a \<Rightarrow> 'a" where
  "limit min_thr max_thr number = max (min number max_thr) min_thr"

definition hex_digit :: "nat \<Rightarrow> char" where
  "hex_digit d = ''0123456789abcdef'' ! (d mod 16)"

fun hex_digits :: "nat \<Rightarrow> string" where
  "hex_digits n = (if n < 16 then [hex_digit n] else hex_digits (n div 16) @ [hex_digit (n mod 16)])"

definition py_hex :: "int \<Rightarrow> string" where
  \<comment> \<open>\<^verbatim>\<open>hex(n)\<close>: a sign, then \<^verbatim>\<open>0x\<close>, then lowercase digits\<close>
  "py_hex n = (if n < 0 then ''-0x'' @ hex_digits (nat (- n)) else ''0x'' @ hex_digits (nat n))"

definition upper_char :: "char \<Rightarrow> char" where
  \<comment> \<open>\<^verbatim>\<open>str.upper\<close> on one ASCII character\<close>
  "upper_char c =
     (case map_of (zip ''abcdefghijklmnopqrstuvwxyz'' ''ABCDEFGHIJKLMNOPQRSTUVWXYZ'') c of
        Some u \<Rightarrow> u
      | None \<Rightarrow> c)"

definition int_to_hexstring :: "int \<Rightarrow> string" where
  "int_to_hexstring dec =
     (let out = drop 2 (py_hex dec);
          out = (if length out mod 2 \<noteq> 0 then ''0'' @ out else out)
      in map upper_char out)"

subsection \<open>Keyboard colour\<close>

definition scale_channel :: "(rat \<Rightarrow> rat) \<Rightarrow> rat \<Rightarrow> int" where
  \<comment> \<open>the body of the loop of \<^verbatim>\<open>get_load_color\<close>: \<^verbatim>\<open>int(limit(0, 1, rgb[i]) * 255)\<close>;
      where \<^verbatim>\<open>limit\<close> returns a bound, Python multiplies integers, and the product is 0
      or 255, which a float rounding keeps\<close>
  "scale_channel rnd c = py_int (rnd (limit 0 1 c * 255))"

definition get_load_color :: "(rat \<Rightarrow> rat) \<Rightarrow> rat \<Rightarrow> int list" where
  "get_load_color rnd percentage =
     (let percentage = rnd (percentage / 100);
          rgb = [rnd (2 * percentage), rnd (2 * rnd (1 - percentage)), 0]
      in map (scale_channel rnd) rgb)"

fun color_string :: "int list \<Rightarrow> string" where
  \<comment> \<open>the loop of \<^verbatim>\<open>set_keyboard_color\<close> that builds the argument of g810-led\<close>
  "color_string [] = ''''"
| "color_string (color # rgb) = int_to_hexstring (limit 0 255 color) @ color_string rgb"

subsection \<open>Errors, the device and what the process does\<close>

datatype py_error =
    SystemExit  \<comment> \<open>\<^verbatim>\<open>exit()\<close>\<close>
  | ValueError string  \<comment> \<open>a \<^verbatim>\<open>raise ValueError(msg)\<close> of the source, or the one of \<^verbatim>\<open>time.sleep\<close>\<close>
  | BadInt string  \<comment> \<open>the ValueError of \<^verbatim>\<open>int(text)\<close>, with the text\<close>
  | BadFloat string  \<comment> \<open>the ValueError of \<^verbatim>\<open>float(text)\<close>, with the text\<close>
  | NameError string
  | KeyError string
  | TypeError
  | AttributeError
  | IndexError
  | ZeroDivisionError
  | OverflowError  \<comment> \<open>of \<^verbatim>\<open>time.sleep\<close>: the length does not fit the C time type\<close>
  | XMLError  \<comment> \<open>the settings file is missing or is not XML\<close>

datatype dev_outcome =
    DevOk  \<comment> \<open>g810-led ran and returned 0\<close>
  | DevNotFound  \<comment> \<open>FileNotFoundError: there is no g810-led\<close>
  | DevFailed  \<comment> \<open>any other exception of \<^verbatim>\<open>check_output\<close>\<close>

datatype event =
    Command string  \<comment> \<open>\<^verbatim>\<open>check_output(["g810-led", "-a", s])\<close> is called\<close>
  | Sleep rat
  | Print string
  | PrintColor "int list"  \<comment> \<open>the \<^verbatim>\<open>R: G: B:\<close> line\<close>
  | PrintLoad rat  \<comment> \<open>the \<^verbatim>\<open>CPU LOAD\<close> line\<close>
  | PrintRepr py_error
  | ClearScreen

type_synonym 'a proc = "event list \<times> (py_error + 'a)"

definition andthen :: "'a proc \<Rightarrow> ('a \<Rightarrow> 'b proc) \<Rightarrow> 'b proc" where
  \<comment> \<open>one statement after another: an exception ends the sequence, the events add up\<close>
  "andthen m f =
     (case m of
        (es, Inl err) \<Rightarrow> (es, Inl err)
      | (es, Inr x) \<Rightarrow> (case f x of (es', r) \<Rightarrow> (es @ es', r)))"

text \<open>
  \<^verbatim>\<open>time.sleep\<close> first converts the length to nanoseconds in a signed 64-bit integer:
  NaN raises ValueError, and a length whose float product with \<open>10 ^ 9\<close> is not in
  \<open>[- 2 ^ 63, 2 ^ 63)\<close> raises OverflowError, so both infinities do. Then a negative
  length raises ValueError. The bounds below are on the exact product; on the doubles they
  give the same answer as the comparison of the rounded product: the largest double
  under \<open>2 ^ 63 / 10 ^ 9\<close> has a product more than 1300 under \<open>2 ^ 63\<close>, and a product less
  than 1024 under \<open>- 2 ^ 63\<close> rounds to \<open>- 2 ^ 63\<close>, which is in the range. What the
  operating system does with a length in the range is not modelled: it can refuse a
  deadline, the monotonic clock plus the length, close to \<open>2 ^ 63\<close> nanoseconds.
\<close>

fun py_sleep :: "py_float \<Rightarrow> unit proc" where
  "py_sleep NaN = ([], Inl (ValueError ''Invalid value NaN (not a number)''))"
| "py_sleep PInf = ([], Inl OverflowError)"
| "py_sleep MInf = ([], Inl OverflowError)"
| "py_sleep (Fin secs) =
     (if secs * 10 ^ 9 < - (2 ^ 63) - 1024 \<or> 2 ^ 63 \<le> secs * 10 ^ 9
      then ([], Inl OverflowError)
      else if secs < 0 then ([], Inl (ValueError ''sleep length must be non-negative''))
      else ([Sleep secs], Inr ()))"

definition set_keyboard_color :: "int list \<Rightarrow> int \<Rightarrow> dev_outcome \<Rightarrow> unit proc" where
  "set_keyboard_color rgb ignore_errors outcome =
     (let cs = color_string rgb in
      case outcome of
        DevOk \<Rightarrow> ([Command cs], Inr ())
      | DevNotFound \<Rightarrow>
          ([Command cs,
            Print ''Program g810-led not found; install it from https://github.com/MatMoul/g810-led''],
           Inl SystemExit)
      | DevFailed \<Rightarrow>
          (if ignore_errors = 0
           then ([Command cs, Print ''Program g810-led failed; check keyboard connection''],
                 Inl SystemExit)
           else ([Command cs], Inr ())))"

text \<open>
  The device is an oracle \<open>dev\<close>: \<open>dev k\<close> is the outcome of the \<open>k\<close>-th command the
  process issues in the current iteration of the main loop.
\<close>

fun blink_loop ::
  "nat \<Rightarrow> int list \<Rightarrow> int list \<Rightarrow> py_float \<Rightarrow> (nat \<Rightarrow> dev_outcome) \<Rightarrow> nat \<Rightarrow>
   unit proc" where
  "blink_loop 0 color1 color2 interval dev k = ([], Inr ())"
| "blink_loop (Suc n) color1 color2 interval dev k =
     andthen (set_keyboard_color color1 0 (dev k)) (\<lambda>_.
     andthen (py_sleep interval) (\<lambda>_.
     andthen (set_keyboard_color color2 0 (dev (k + 1))) (\<lambda>_.
     andthen (py_sleep interval) (\<lambda>_.
     blink_loop n color1 color2 interval dev (k + 2)))))"

definition notification_blink ::
  "int list \<Rightarrow> int list \<Rightarrow> int \<Rightarrow> py_float \<Rightarrow> (nat \<Rightarrow> dev_outcome) \<Rightarrow> unit proc" where
  \<comment> \<open>\<^verbatim>\<open>range(count)\<close> is empty when \<open>count \<le> 0\<close>\<close>
  "notification_blink color1 color2 count interval dev =
     blink_loop (nat count) color1 color2 interval dev 0"

subsection \<open>Notification settings\<close>

datatype xml_text = NoText | Text string  \<comment> \<open>\<^verbatim>\<open>element.text\<close>: \<^verbatim>\<open>None\<close> or a string\<close>

text \<open>
  The dictionary of one notification: the source writes four keys only, so the
  dictionary is a record of four optional values, \<open>None\<close> for a key that is absent.
\<close>

record settings_object =
  so_name :: "xml_text option"
  so_color :: "int list option"
  so_count :: "int option"
  so_interval :: "py_float option"

type_synonym xml_node = "(string \<times> xml_text) list"  \<comment> \<open>the children of a node: tag and text\<close>

definition NOTIFICATION_SETTINGS_MANDATORY_ATTRIBUTES :: "string list" where
  "NOTIFICATION_SETTINGS_MANDATORY_ATTRIBUTES = [''name'', ''color'', ''count'', ''interval'']"

fun split_on :: "char \<Rightarrow> string \<Rightarrow> string list" where
  \<comment> \<open>\<^verbatim>\<open>s.split(sep)\<close> for a separator of one character\<close>
  "split_on sep [] = [[]]"
| "split_on sep (c # cs) =
     (if c = sep then [] # split_on sep cs
      else (case split_on sep cs of [] \<Rightarrow> [[c]] | w # ws \<Rightarrow> (c # w) # ws))"

fun map_int :: "(string \<Rightarrow> int option) \<Rightarrow> string list \<Rightarrow> py_error + int list" where
  \<comment> \<open>\<^verbatim>\<open>tuple(map(int, parts))\<close>: the first text that is no integer raises\<close>
  "map_int int_of [] = Inr []"
| "map_int int_of (t # ts) =
     (case int_of t of
        None \<Rightarrow> Inl (BadInt t)
      | Some i \<Rightarrow> (case map_int int_of ts of Inl e \<Rightarrow> Inl e | Inr is \<Rightarrow> Inr (i # is)))"

text \<open>
  \<open>int_of\<close> and \<open>float_of\<close> stand for Python's \<^verbatim>\<open>int\<close> and \<^verbatim>\<open>float\<close> on a string,
  \<open>None\<close> where they raise ValueError. They are parameters of the parser. \<^verbatim>\<open>float\<close>
  reads the texts of the infinities and of NaN as well.
\<close>

definition assign_element ::
  "(string \<Rightarrow> int option) \<Rightarrow> (string \<Rightarrow> py_float option) \<Rightarrow> string \<times> xml_text \<Rightarrow>
   settings_object \<Rightarrow> py_error + settings_object" where
  "assign_element int_of float_of element obj =
     (case element of (tag, txt) \<Rightarrow>
        if tag = ''name'' then Inr (obj\<lparr>so_name := Some txt\<rparr>)
        else if tag = ''color'' then
          (case txt of
             NoText \<Rightarrow> Inl AttributeError
           | Text t \<Rightarrow>
               (case map_int int_of (split_on CHR '','' t) of
                  Inl e \<Rightarrow> Inl e
                | Inr c \<Rightarrow> Inr (obj\<lparr>so_color := Some c\<rparr>)))
        else if tag = ''count'' then
          (case txt of
             NoText \<Rightarrow> Inl TypeError
           | Text t \<Rightarrow>
               (case int_of t of
                  None \<Rightarrow> Inl (BadInt t)
                | Some i \<Rightarrow> Inr (obj\<lparr>so_count := Some i\<rparr>)))
        else if tag = ''interval'' then
          (case txt of
             NoText \<Rightarrow> Inl TypeError
           | Text t \<Rightarrow>
               (case float_of t of
                  None \<Rightarrow> Inl (BadFloat t)
                | Some x \<Rightarrow> Inr (obj\<lparr>so_interval := Some x\<rparr>)))
        else Inr obj)"

fun assign_elements ::
  "(string \<Rightarrow> int option) \<Rightarrow> (string \<Rightarrow> py_float option) \<Rightarrow> xml_node \<Rightarrow>
   settings_object \<Rightarrow> py_error + settings_object" where
  "assign_elements int_of float_of [] obj = Inr obj"
| "assign_elements int_of float_of (element # elements) obj =
     (case assign_element int_of float_of element obj of
        Inl e \<Rightarrow> Inl e
      | Inr obj' \<Rightarrow> assign_elements int_of float_of elements obj')"

definition has_key :: "string \<Rightarrow> settings_object \<Rightarrow> bool" where
  \<comment> \<open>\<^verbatim>\<open>attribute in notification_settings_object\<close>\<close>
  "has_key attribute obj =
     (if attribute = ''name'' then so_name obj \<noteq> None
      else if attribute = ''color'' then so_color obj \<noteq> None
      else if attribute = ''count'' then so_count obj \<noteq> None
      else if attribute = ''interval'' then so_interval obj \<noteq> None
      else False)"

fun check_attributes :: "string list \<Rightarrow> settings_object \<Rightarrow> py_error + unit" where
  "check_attributes [] obj = Inr ()"
| "check_attributes (attribute # attributes) obj =
     (if \<not> has_key attribute obj
      then Inl (ValueError (''Missing element in notification settings XML: '' @ attribute))
      else check_attributes attributes obj)"

definition empty_object :: settings_object where
  "empty_object = \<lparr>so_name = None, so_color = None, so_count = None, so_interval = None\<rparr>"

fun parse_nodes ::
  "(string \<Rightarrow> int option) \<Rightarrow> (string \<Rightarrow> py_float option) \<Rightarrow> xml_node list \<Rightarrow>
   settings_object list \<Rightarrow> py_error + settings_object list" where
  "parse_nodes int_of float_of [] out_list = Inr out_list"
| "parse_nodes int_of float_of (node # nodes) out_list =
     (case assign_elements int_of float_of node empty_object of
        Inl e \<Rightarrow> Inl e
      | Inr obj \<Rightarrow>
          (case check_attributes NOTIFICATION_SETTINGS_MANDATORY_ATTRIBUTES obj of
             Inl e \<Rightarrow> Inl e
           | Inr _ \<Rightarrow> parse_nodes int_of float_of nodes (out_list @ [obj])))"

definition parse_notification_settings_from_xml ::
  "(string \<Rightarrow> int option) \<Rightarrow> (string \<Rightarrow> py_float option) \<Rightarrow> py_error + xml_node list \<Rightarrow>
   py_error + settings_object list" where
  \<comment> \<open>\<open>file\<close> is \<^verbatim>\<open>xml_parser.parse(path).iterfind('notification')\<close>, or the exception it raises\<close>
  "parse_notification_settings_from_xml int_of float_of file =
     (case file of
        Inl e \<Rightarrow> Inl e
      | Inr nodes \<Rightarrow> parse_nodes int_of float_of nodes [])"

subsection \<open>The main program\<close>

definition SAMPLING :: rat where
  "SAMPLING = 2 / 10"

definition SAMPLES :: nat where
  "SAMPLES = 25"

record args =
  verbose :: int
  persistent :: int
  notify :: int

record state =
  NOTIFY :: string
  cpu_load_cache :: "int list"
  current_sampling :: nat
  meter_color :: "int list option"  \<comment> \<open>\<open>None\<close>: the name is not bound yet\<close>
  notification_settings_list :: "settings_object list"

text \<open>
  What one iteration of the main loop takes from outside: the messages the bus has
  delivered since the last iteration (each one its list of arguments), the reading of
  \<^verbatim>\<open>psutil.cpu_percent()\<close> and the device oracle.
\<close>

record tick_input =
  arrived :: "string list list"
  reading :: rat
  device :: "nat \<Rightarrow> dev_outcome"

definition notification_event :: "string list \<Rightarrow> state \<Rightarrow> py_error + state" where
  \<comment> \<open>\<^verbatim>\<open>NOTIFY = message.get_args_list()[0]\<close>\<close>
  "notification_event message s =
     (case message of
        [] \<Rightarrow> Inl IndexError
      | a # _ \<Rightarrow> Inr (s\<lparr>NOTIFY := a\<rparr>))"

fun notification_scanner :: "string list list \<Rightarrow> state \<Rightarrow> state" where
  \<comment> \<open>the bus calls \<open>notification_event\<close> on each message in turn; an exception of the
      callback stays in the listener\<close>
  "notification_scanner [] s = s"
| "notification_scanner (message # messages) s =
     (case notification_event message s of
        Inl _ \<Rightarrow> notification_scanner messages s
      | Inr s' \<Rightarrow> notification_scanner messages s')"

definition sample_cpu_load ::
  "(rat \<Rightarrow> rat) \<Rightarrow> int \<Rightarrow> int list \<times> nat \<Rightarrow> py_error + ((int list \<times> nat) \<times> rat)" where
  \<comment> \<open>lines 178 to 183: store the sample at the cursor, advance the cursor, average\<close>
  "sample_cpu_load rnd sample st =
     (case st of (cache, cur) \<Rightarrow>
        if length cache \<le> cur then Inl IndexError
        else
          (let cache = cache[cur := sample];
               cur = cur + 1;
               cur = (if length cache \<le> cur then 0 else cur)
           in if length cache = 0 then Inl ZeroDivisionError
              else Inr ((cache, cur),
                        rnd (of_int (sum_list cache) / of_int (int (length cache))))))"

fun feed ::
  "(rat \<Rightarrow> rat) \<Rightarrow> int list \<Rightarrow> int list \<times> nat \<Rightarrow> rat option \<Rightarrow>
   py_error + ((int list \<times> nat) \<times> rat option)" where
  \<comment> \<open>the samples of a run of iterations, one after the other, and the last average\<close>
  "feed rnd [] st avg = Inr (st, avg)"
| "feed rnd (sample # samples) st avg =
     (case sample_cpu_load rnd sample st of
        Inl e \<Rightarrow> Inl e
      | Inr (st', avg') \<Rightarrow> feed rnd samples st' (Some avg'))"

fun scan_settings ::
  "string \<Rightarrow> int list option \<Rightarrow> (nat \<Rightarrow> dev_outcome) \<Rightarrow> settings_object list \<Rightarrow> unit proc" where
  \<comment> \<open>lines 198 to 201: blink for the first setting of that name, then \<^verbatim>\<open>break\<close>\<close>
  "scan_settings name mc dev [] = ([], Inr ())"
| "scan_settings name mc dev (notification # rest) =
     (case so_name notification of
        None \<Rightarrow> ([], Inl (KeyError ''name''))
      | Some t \<Rightarrow>
          if Text name = t then
            (case so_color notification of
               None \<Rightarrow> ([], Inl (KeyError ''color''))
             | Some color \<Rightarrow>
            (case mc of
               None \<Rightarrow> ([], Inl (NameError ''meter_color''))
             | Some color2 \<Rightarrow>
            (case so_count notification of
               None \<Rightarrow> ([], Inl (KeyError ''count''))
             | Some cnt \<Rightarrow>
            (case so_interval notification of
               None \<Rightarrow> ([], Inl (KeyError ''interval''))
             | Some interval \<Rightarrow> notification_blink color color2 cnt interval dev))))
          else scan_settings name mc dev rest)"

definition loop_body :: "(rat \<Rightarrow> rat) \<Rightarrow> args \<Rightarrow> tick_input \<Rightarrow> state \<Rightarrow> state proc" where
  \<comment> \<open>lines 176 to 202, one iteration of \<^verbatim>\<open>while True\<close>\<close>
  "loop_body rnd a inp s =
     (if NOTIFY s = [] then
        (case sample_cpu_load rnd (py_int (reading inp)) (cpu_load_cache s, current_sampling s) of
           Inl e \<Rightarrow> ([], Inl e)
         | Inr ((cache, cur), cpu_load) \<Rightarrow>
             (let mc = get_load_color rnd cpu_load in
              andthen (set_keyboard_color mc (persistent a) (device inp 0)) (\<lambda>_.
              andthen (if verbose a \<noteq> 0
                       then ([ClearScreen, Print ''G Series Keyboard control'',
                              PrintColor mc, PrintLoad cpu_load], Inr ())
                       else ([], Inr ())) (\<lambda>_.
              andthen (py_sleep (Fin SAMPLING)) (\<lambda>_.
              ([], Inr (s\<lparr>cpu_load_cache := cache, current_sampling := cur,
                           meter_color := Some mc\<rparr>)))))))
      else
        andthen (if verbose a \<noteq> 0
                 then ([Print (''Notification active: '' @ NOTIFY s)], Inr ())
                 else ([], Inr ())) (\<lambda>_.
        andthen (scan_settings (NOTIFY s) (meter_color s) (device inp)
                   (notification_settings_list s)) (\<lambda>_.
        ([], Inr (s\<lparr>NOTIFY := []\<rparr>)))))"

fun main_loop :: "(rat \<Rightarrow> rat) \<Rightarrow> args \<Rightarrow> tick_input list \<Rightarrow> state \<Rightarrow> state proc" where
  \<comment> \<open>\<^verbatim>\<open>while True\<close> over the inputs of finitely many iterations; \<open>Inr\<close> is a process
      that is still running after them\<close>
  "main_loop rnd a [] s = ([], Inr s)"
| "main_loop rnd a (inp # inps) s =
     andthen (loop_body rnd a inp (notification_scanner (arrived inp) s))
       (\<lambda>s'. main_loop rnd a inps s')"

definition startup ::
  "(string \<Rightarrow> int option) \<Rightarrow> (string \<Rightarrow> py_float option) \<Rightarrow> args \<Rightarrow> py_error + xml_node list \<Rightarrow>
   state proc" where
  \<comment> \<open>lines 161 to 173; the listener thread is started where the settings are returned\<close>
  "startup int_of float_of a file =
     (let s = \<lparr>NOTIFY = [], cpu_load_cache = replicate SAMPLES 50, current_sampling = 0,
                meter_color = None, notification_settings_list = []\<rparr>
      in if notify a \<noteq> 0 then
           (case parse_notification_settings_from_xml int_of float_of file of
              Inl e \<Rightarrow>
                ([Print ''Error in executing notification monitoring setup; check notification setting file'',
                  PrintRepr e], Inl SystemExit)
            | Inr l \<Rightarrow> ([], Inr (s\<lparr>notification_settings_list := l\<rparr>)))
         else ([], Inr s))"

definition main ::
  "(rat \<Rightarrow> rat) \<Rightarrow> (string \<Rightarrow> int option) \<Rightarrow> (string \<Rightarrow> py_float option) \<Rightarrow> args \<Rightarrow>
   py_error + xml_node list \<Rightarrow> tick_input list \<Rightarrow> state proc" where
  "main rnd int_of float_of a file inps =
     andthen (startup int_of float_of a file) (\<lambda>s. main_loop rnd a inps s)"

subsection \<open>The specification's words\<close>

definition hex_byte :: "int \<Rightarrow> string" where
  \<comment> \<open>a channel as two zero-padded uppercase hexadecimal digits\<close>
  "hex_byte n = [''0123456789ABCDEF'' ! nat (n div 16), ''0123456789ABCDEF'' ! nat (n mod 16)]"

definition resolve :: "string \<Rightarrow> settings_object list \<Rightarrow> settings_object option" where
  \<comment> \<open>the Blink Pattern Resolver: the first setting of that name\<close>
  "resolve name settings = find (\<lambda>n. so_name n = Some (Text name)) settings"

definition complete_setting :: "settings_object \<Rightarrow> bool" where
  \<comment> \<open>a notification setting has its four fields\<close>
  "complete_setting n \<longleftrightarrow>
     so_name n \<noteq> None \<and> so_color n \<noteq> None \<and> so_count n \<noteq> None \<and> so_interval n \<noteq> None"

definition reachable_shape :: "state \<Rightarrow> bool" where
  \<comment> \<open>what start-up establishes and every iteration keeps: the settings are complete
      and the cursor is inside the buffer\<close>
  "reachable_shape s \<longleftrightarrow>
     list_all complete_setting (notification_settings_list s) \<and>
     current_sampling s < length (cpu_load_cache s)"


fun commands :: "event list \<Rightarrow> string list" where
  \<comment> \<open>the strings of the display commands among the events, in order\<close>
  "commands [] = []"
| "commands (Command c # es) = c # commands es"
| "commands (e # es) = commands es"

subsection \<open>Example inputs\<close>

definition example_int :: "string \<Rightarrow> int option" where
  \<comment> \<open>\<^verbatim>\<open>int\<close> on the texts of the examples\<close>
  "example_int = map_of [(''0'', 0), (''1'', 1), (''2'', 2), (''190'', 190), (''255'', 255)]"

definition example_float :: "string \<Rightarrow> py_float option" where
  \<comment> \<open>\<^verbatim>\<open>float\<close> on the texts of the examples\<close>
  "example_float = map_of [(''0.3'', Fin (3 / 10)), (''0.5'', Fin (1 / 2))]"

definition telegram_node :: xml_node where
  "telegram_node =
     [(''name'', Text ''Telegram Desktop''), (''color'', Text ''0,190,255''),
      (''count'', Text ''2''), (''interval'', Text ''0.3'')]"

definition telegram :: settings_object where
  "telegram = \<lparr>so_name = Some (Text ''Telegram Desktop''), so_color = Some [0, 190, 255],
                so_count = Some 2, so_interval = Some (Fin (3 / 10))\<rparr>"

definition spotify_node :: xml_node where
  \<comment> \<open>a record without its interval\<close>
  "spotify_node =
     [(''name'', Text ''Spotify''), (''color'', Text ''255,255,255''), (''count'', Text ''1'')]"

definition bad_count_node :: xml_node where
  \<comment> \<open>a record without name and interval, whose count is no integer\<close>
  "bad_count_node = [(''color'', Text ''0,190,255''), (''count'', Text ''2.5'')]"

definition all_ok :: "nat \<Rightarrow> dev_outcome" where
  "all_ok = (\<lambda>_. DevOk)"

definition fails_at :: "nat \<Rightarrow> nat \<Rightarrow> dev_outcome" where
  "fails_at j = (\<lambda>k. if k = j then DevFailed else DevOk)"

definition example_state :: "string \<Rightarrow> int list option \<Rightarrow> state" where
  "example_state name mc =
     \<lparr>NOTIFY = name, cpu_load_cache = replicate SAMPLES 50, current_sampling = 0,
      meter_color = mc, notification_settings_list = [telegram]\<rparr>"

section \<open>Properties\<close>

subsection \<open>Rounding\<close>

lemma float_rounding_id: "float_rounding (\<lambda>x. x)"
  by (simp add: float_rounding_def)

lemma rnd_mono: "float_rounding rnd \<Longrightarrow> x \<le> y \<Longrightarrow> rnd x \<le> rnd y"
  by (simp add: float_rounding_def)

lemma rnd_int:
  assumes "float_rounding rnd" and "\<bar>n\<bar> \<le> 2 ^ 52"
  shows "rnd (of_int n) = of_int n"
proof -
  have "\<bar>2 * n\<bar> \<le> 2 ^ 53"
    using assms(2) by simp
  with assms(1) have "rnd (of_int (2 * n) / 2) = of_int (2 * n) / 2"
    unfolding float_rounding_def by blast
  then show ?thesis by simp
qed

lemma rnd_half:
  assumes "float_rounding rnd"
  shows "rnd (1 / 2) = 1 / 2"
proof -
  have "\<bar>1::int\<bar> \<le> 2 ^ 53" by simp
  with assms have "rnd (of_int 1 / 2) = of_int 1 / 2"
    unfolding float_rounding_def by blast
  then show ?thesis by simp
qed

lemma rnd_0: "float_rounding rnd \<Longrightarrow> rnd 0 = 0"
  using rnd_int [of rnd 0] by simp

lemma rnd_1: "float_rounding rnd \<Longrightarrow> rnd 1 = 1"
  using rnd_int [of rnd 1] by simp

lemma rnd_2: "float_rounding rnd \<Longrightarrow> rnd 2 = 2"
  using rnd_int [of rnd 2] by simp

lemma rnd_255: "float_rounding rnd \<Longrightarrow> rnd 255 = 255"
  using rnd_int [of rnd 255] by simp

lemma py_int_mono:
  assumes "x \<le> y"
  shows "py_int x \<le> py_int y"
proof (cases "0 \<le> x")
  case True
  with assms show ?thesis
    by (simp add: py_int_def floor_mono)
next
  case x: False
  show ?thesis
  proof (cases "0 \<le> y")
    case True
    have "\<lceil>x\<rceil> \<le> 0" using x by (simp add: ceiling_le_zero)
    moreover have "0 \<le> \<lfloor>y\<rfloor>" using True by simp
    ultimately have "\<lceil>x\<rceil> \<le> \<lfloor>y\<rfloor>" by linarith
    then show ?thesis using x True by (simp add: py_int_def)
  next
    case False
    with x assms show ?thesis
      by (simp add: py_int_def ceiling_mono)
  qed
qed

subsection \<open>The load colour\<close>

lemma limit_mono: "x \<le> y \<Longrightarrow> limit a b x \<le> limit a b (y::rat)"
  unfolding limit_def by (auto simp: max_def min_def)

lemma scale_channel_mono:
  assumes "float_rounding rnd" and "x \<le> y"
  shows "scale_channel rnd x \<le> scale_channel rnd y"
proof -
  have "limit 0 1 x * 255 \<le> limit 0 1 y * 255"
    using limit_mono [OF assms(2), of 0 1] by simp
  then show ?thesis
    unfolding scale_channel_def by (intro py_int_mono rnd_mono [OF assms(1)])
qed

lemma scale_channel_high:
  assumes "float_rounding rnd" and "1 \<le> x"
  shows "scale_channel rnd x = 255"
  using assms by (simp add: scale_channel_def limit_def rnd_255 py_int_def)

lemma scale_channel_low:
  assumes "float_rounding rnd" and "x \<le> 0"
  shows "scale_channel rnd x = 0"
  using assms by (simp add: scale_channel_def limit_def rnd_0 py_int_def max_def)

lemma get_load_color_channels:
  "get_load_color rnd p =
     [scale_channel rnd (rnd (2 * rnd (p / 100))),
      scale_channel rnd (rnd (2 * rnd (1 - rnd (p / 100)))),
      scale_channel rnd 0]"
  by (simp add: get_load_color_def Let_def)

lemma get_load_color_0:
  assumes "float_rounding rnd"
  shows "get_load_color rnd 0 = [0, 255, 0]"
  unfolding get_load_color_channels
  using assms by (simp add: rnd_0 rnd_1 rnd_2 scale_channel_high scale_channel_low)

lemma get_load_color_50:
  assumes "float_rounding rnd"
  shows "get_load_color rnd 50 = [255, 255, 0]"
  unfolding get_load_color_channels
  using assms by (simp add: rnd_half rnd_1 scale_channel_high scale_channel_low)

lemma get_load_color_full:
  assumes "float_rounding rnd" and "100 \<le> p"
  shows "get_load_color rnd p = [255, 0, 0]"
proof -
  let ?q = "rnd (p / 100)"
  have q: "1 \<le> ?q"
    using rnd_mono [OF assms(1), of 1 "p / 100"] assms by (simp add: rnd_1)
  have "2 \<le> rnd (2 * ?q)"
    using rnd_mono [OF assms(1), of 2 "2 * ?q"] q assms(1) by (simp add: rnd_2)
  then have r: "scale_channel rnd (rnd (2 * ?q)) = 255"
    using scale_channel_high [OF assms(1)] by simp
  have "rnd (1 - ?q) \<le> 0"
    using rnd_mono [OF assms(1), of "1 - ?q" 0] q assms(1) by (simp add: rnd_0)
  then have "rnd (2 * rnd (1 - ?q)) \<le> 0"
    using rnd_mono [OF assms(1), of "2 * rnd (1 - ?q)" 0] assms(1) by (simp add: rnd_0)
  then have g: "scale_channel rnd (rnd (2 * rnd (1 - ?q))) = 0"
    using scale_channel_low [OF assms(1)] by simp
  show ?thesis
    unfolding get_load_color_channels
    using r g scale_channel_low [OF assms(1), of 0] by simp
qed

text \<open>
  C3: the mapper gives \<open>(0, 255, 0)\<close> at load 0, \<open>(255, 255, 0)\<close> at load 50, where both
  channels are saturated, and \<open>(255, 0, 0)\<close> at every load of 100 or more. This holds for
  every rounding of the float operations.
\<close>

theorem get_load_color_endpoints:
  assumes "float_rounding rnd"
  shows "get_load_color rnd 0 = [0, 255, 0] \<and>
         get_load_color rnd 50 = [255, 255, 0] \<and>
         (\<forall>p\<ge>100. get_load_color rnd p = [255, 0, 0])"
  using assms get_load_color_0 get_load_color_50 get_load_color_full by blast

theorem get_load_color_endpoints_witness:
  "float_rounding (\<lambda>x. x) \<and>
   get_load_color (\<lambda>x. x) 0 = [0, 255, 0] \<and>
   get_load_color (\<lambda>x. x) 50 = [255, 255, 0] \<and>
   (100::rat) \<le> 120 \<and> get_load_color (\<lambda>x. x) 120 = [255, 0, 0]"
proof -
  have "(100::rat) \<le> 120" by simp
  with get_load_color_endpoints [OF float_rounding_id] float_rounding_id
  show ?thesis by blast
qed

text \<open>
  C8: the blue channel of the mapped colour is 0, the red channel does not decrease and
  the green channel does not increase when the load grows. It is proved for any two loads
  \<open>p \<le> q\<close>, so also for the loads between 0 and 100.
\<close>

theorem get_load_color_monotone:
  assumes "float_rounding rnd" and "p \<le> q"
  shows "get_load_color rnd p ! 2 = 0 \<and>
         get_load_color rnd p ! 0 \<le> get_load_color rnd q ! 0 \<and>
         get_load_color rnd q ! 1 \<le> get_load_color rnd p ! 1"
proof -
  note fr = assms(1)
  have a: "rnd (p / 100) \<le> rnd (q / 100)"
    using assms(2) by (intro rnd_mono [OF fr]) simp
  have r: "rnd (2 * rnd (p / 100)) \<le> rnd (2 * rnd (q / 100))"
    using a by (intro rnd_mono [OF fr]) simp
  have "rnd (1 - rnd (q / 100)) \<le> rnd (1 - rnd (p / 100))"
    using a by (intro rnd_mono [OF fr]) simp
  then have g: "rnd (2 * rnd (1 - rnd (q / 100))) \<le> rnd (2 * rnd (1 - rnd (p / 100)))"
    by (intro rnd_mono [OF fr]) simp
  show ?thesis
    unfolding get_load_color_channels
    using scale_channel_mono [OF fr r] scale_channel_mono [OF fr g]
      scale_channel_low [OF fr, of 0]
    by simp
qed

theorem get_load_color_monotone_witness:
  "float_rounding (\<lambda>x. x) \<and> (20::rat) \<le> 70 \<and>
   get_load_color (\<lambda>x. x) 20 = [102, 255, 0] \<and>
   get_load_color (\<lambda>x. x) 70 = [255, 153, 0] \<and>
   get_load_color (\<lambda>x. x) 20 ! 2 = 0 \<and>
   get_load_color (\<lambda>x. x) 20 ! 0 \<le> get_load_color (\<lambda>x. x) 70 ! 0 \<and>
   get_load_color (\<lambda>x. x) 70 ! 1 \<le> get_load_color (\<lambda>x. x) 20 ! 1"
proof -
  have le: "(20::rat) \<le> 70" by simp
  have v: "get_load_color (\<lambda>x. x) 20 = [102, 255, 0]" "get_load_color (\<lambda>x. x) 70 = [255, 153, 0]"
    by (simp_all add: get_load_color_channels scale_channel_def limit_def py_int_def)
  from get_load_color_monotone [OF float_rounding_id le] float_rounding_id le v
  show ?thesis by blast
qed

subsection \<open>The command string\<close>

lemma upper_hex_digits: "map upper_char ''0123456789abcdef'' = ''0123456789ABCDEF''"
  by (simp add: upper_char_def)

lemma upper_hex_digit:
  assumes "d < 16"
  shows "upper_char (hex_digit d) = ''0123456789ABCDEF'' ! d"
proof -
  from assms have "d < length ''0123456789abcdef''" by simp
  then have "upper_char (''0123456789abcdef'' ! d) = map upper_char ''0123456789abcdef'' ! d"
    by (rule nth_map [symmetric])
  then show ?thesis
    using assms unfolding upper_hex_digits hex_digit_def by simp
qed

lemma upper_zero: "upper_char CHR ''0'' = CHR ''0''"
  by (simp add: upper_char_def)

lemma int_to_hexstring_byte:
  assumes "0 \<le> n" and "n \<le> 255"
  shows "int_to_hexstring n = hex_byte n"
proof -
  define m where "m = nat n"
  have m: "m < 256" "n = int m"
    using assms by (simp_all add: m_def)
  have d: "m div 16 < 16" "m mod 16 < 16"
    using m(1) by simp_all
  have nd: "nat (n div 16) = m div 16" "nat (n mod 16) = m mod 16"
    unfolding m(2) by (simp_all add: nat_div_distrib nat_mod_distrib)
  show ?thesis
  proof (cases "m < 16")
    case True
    then have "m div 16 = 0" "m mod 16 = m" by simp_all
    with True show ?thesis
      unfolding int_to_hexstring_def py_hex_def hex_byte_def nd
      using m(2) by (simp add: upper_hex_digit upper_zero)
  next
    case False
    then have "hex_digits m = [hex_digit (m div 16), hex_digit (m mod 16)]"
      using d(1) by (subst hex_digits.simps) simp
    then show ?thesis
      unfolding int_to_hexstring_def py_hex_def hex_byte_def nd
      using m(2) d by (simp add: upper_hex_digit)
  qed
qed

lemma limit_byte: "0 \<le> limit 0 255 (c::int) \<and> limit 0 255 c \<le> 255"
  by (simp add: limit_def)

lemma hex_byte_upper:
  assumes "0 \<le> n" and "n \<le> 255"
  shows "set (hex_byte n) \<subseteq> set ''0123456789ABCDEF''"
proof -
  have "nat (n div 16) < length ''0123456789ABCDEF''"
    using assms by simp
  then have 1: "''0123456789ABCDEF'' ! nat (n div 16) \<in> set ''0123456789ABCDEF''"
    by (rule nth_mem)
  have "nat (n mod 16) < length ''0123456789ABCDEF''"
    using assms by simp
  then have 2: "''0123456789ABCDEF'' ! nat (n mod 16) \<in> set ''0123456789ABCDEF''"
    by (rule nth_mem)
  from 1 2 show ?thesis
    unfolding hex_byte_def by simp
qed

text \<open>
  C4, as the claim states it, fails: the string for a triple has six characters, not
  eight.
\<close>

theorem color_string_not_eight:
  "set_keyboard_color [0, 190, 255] 0 DevOk = ([Command ''00BEFF''], Inr ()) \<and>
   length ''00BEFF'' \<noteq> 8"
  by (simp add: set_keyboard_color_def int_to_hexstring_def py_hex_def limit_def hex_digit_def
      upper_char_def)

text \<open>
  C4, amended: for every triple of integers the string passed to the device command is
  \<open>RRGGBB\<close>, six uppercase hexadecimal characters, each channel clamped to 0..255 and
  then written as two zero-padded digits.
\<close>

theorem color_string_rrggbb:
  "fst (set_keyboard_color [r, g, b] ign out) ! 0 =
     Command (hex_byte (limit 0 255 r) @ hex_byte (limit 0 255 g) @ hex_byte (limit 0 255 b)) \<and>
   length (color_string [r, g, b]) = 6 \<and>
   set (color_string [r, g, b]) \<subseteq> set ''0123456789ABCDEF''"
proof -
  have cs: "color_string [r, g, b] =
      hex_byte (limit 0 255 r) @ hex_byte (limit 0 255 g) @ hex_byte (limit 0 255 b)"
    using limit_byte [of r] limit_byte [of g] limit_byte [of b]
    by (simp add: int_to_hexstring_byte)
  have 1: "fst (set_keyboard_color [r, g, b] ign out) ! 0 = Command (color_string [r, g, b])"
    by (cases out) (simp_all add: set_keyboard_color_def Let_def)
  have 2: "length (color_string [r, g, b]) = 6"
    unfolding cs by (simp add: hex_byte_def)
  have 3: "set (color_string [r, g, b]) \<subseteq> set ''0123456789ABCDEF''"
    unfolding cs
    using hex_byte_upper limit_byte [of r] limit_byte [of g] limit_byte [of b]
    by (simp del: set_simps)
  from 1 2 3 show ?thesis
    unfolding cs by blast
qed

subsection \<open>The sampler\<close>

lemma sample_cpu_load_length:
  assumes "sample_cpu_load rnd v (c, i) = Inr ((c', i'), a)"
  shows "length c' = length c"
  using assms by (auto simp: sample_cpu_load_def Let_def split: if_splits)

lemma feed_length:
  "feed rnd vs (c, i) l = Inr ((c', i'), l') \<Longrightarrow> length c' = length c"
proof (induction vs arbitrary: c i l)
  case Nil
  then show ?case by simp
next
  case (Cons v vs)
  from Cons.prems obtain c1 i1 a1 where
    st: "sample_cpu_load rnd v (c, i) = Inr ((c1, i1), a1)"
    and rest: "feed rnd vs (c1, i1) (Some a1) = Inr ((c', i'), l')"
    by (auto split: sum.splits)
  from Cons.IH [OF rest] sample_cpu_load_length [OF st] show ?case by simp
qed

lemma fill_update:
  "(replicate i V @ replicate (Suc k) pre)[i := V] = replicate (Suc i) V @ replicate k pre"
  by (simp add: list_update_append replicate_append_same)

lemma sample_step:
  assumes "i < length c"
  shows "sample_cpu_load rnd v (c, i) =
     Inr ((c[i := v], if length c \<le> Suc i then 0 else Suc i),
          rnd (of_int (sum_list (c[i := v])) / of_int (int (length c))))"
  using assms by (auto simp: sample_cpu_load_def Let_def)

lemma sample_step_mod:
  assumes "i < length c"
  shows "sample_cpu_load rnd v (c, i) =
     Inr ((c[i := v], (i + 1) mod length c),
          rnd (of_int (sum_list (c[i := v])) / of_int (int (length c))))"
proof -
  have "(if length c \<le> Suc i then 0 else Suc i) = (i + 1) mod length c"
    using assms by (simp add: mod_Suc le_Suc_eq)
  with sample_step [OF assms, of rnd v] show ?thesis by simp
qed

lemma sample_fill_step:
  "sample_cpu_load rnd V (replicate i V @ replicate (Suc k) pre, i) =
     Inr ((replicate (Suc i) V @ replicate k pre, if k = 0 then 0 else Suc i),
          rnd (of_int (sum_list (replicate (Suc i) V @ replicate k pre)) / of_int (int (Suc i + k))))"
proof -
  have "i < length (replicate i V @ replicate (Suc k) pre)" by simp
  from sample_step [OF this, of rnd V] show ?thesis
    unfolding fill_update by simp
qed

lemma average_full:
  assumes fr: "float_rounding rnd" and V: "\<bar>V\<bar> \<le> 2 ^ 52"
  shows "rnd (of_int (sum_list (replicate (Suc i) V)) / of_int (int (Suc i))) = of_int V"
proof -
  have "rat_of_int (sum_list (replicate (Suc i) V)) = rat_of_int (int (Suc i)) * rat_of_int V"
    by (simp only: sum_list_replicate of_int_mult of_int_of_nat_eq)
  moreover have "rat_of_int (int (Suc i)) \<noteq> 0" by simp
  ultimately have "rat_of_int (sum_list (replicate (Suc i) V)) / rat_of_int (int (Suc i)) = rat_of_int V"
    by (metis nonzero_mult_div_cancel_left)
  then show ?thesis using rnd_int [OF fr V] by simp
qed

lemma feed_fill:
  assumes fr: "float_rounding rnd" and V: "\<bar>V\<bar> \<le> 2 ^ 52"
  shows "0 < k \<Longrightarrow>
     feed rnd (replicate k V) (replicate i V @ replicate k pre, i) avg =
       Inr ((replicate (i + k) V, 0), Some (of_int V))"
proof (induction k arbitrary: i avg)
  case 0
  then show ?case by simp
next
  case (Suc k)
  have step: "feed rnd (replicate (Suc k) V) (replicate i V @ replicate (Suc k) pre, i) avg =
      feed rnd (replicate k V) (replicate (Suc i) V @ replicate k pre, if k = 0 then 0 else Suc i)
        (Some (rnd (of_int (sum_list (replicate (Suc i) V @ replicate k pre)) / of_int (int (Suc i + k)))))"
    unfolding replicate_Suc [of k V] feed.simps sample_fill_step by simp
  show ?case
  proof (cases "k = 0")
    case True
    show ?thesis
      unfolding step using True average_full [OF fr V, of i] by simp
  next
    case False
    then have "0 < k" by simp
    from Suc.IH [OF this, of "Suc i"] show ?thesis
      unfolding step using False by simp
  qed
qed

subsection \<open>Sequencing, the device and the blink loop\<close>

lemma andthen_Inl: "andthen (es, Inl e) f = (es, Inl e)"
  by (simp add: andthen_def)

lemma andthen_Inr: "andthen (es, Inr x) f = (es @ fst (f x), snd (f x))"
  by (simp add: andthen_def split: prod.splits)

lemma andthen_fails: "snd m = Inl e \<Longrightarrow> snd (andthen m f) = Inl e"
  by (cases m) (simp add: andthen_def)

lemma set_keyboard_color_ok:
  "set_keyboard_color rgb ign DevOk = ([Command (color_string rgb)], Inr ())"
  by (simp add: set_keyboard_color_def)

lemma set_keyboard_color_swallowed:
  "ign \<noteq> 0 \<Longrightarrow> set_keyboard_color rgb ign DevFailed = ([Command (color_string rgb)], Inr ())"
  by (simp add: set_keyboard_color_def)

lemma set_keyboard_color_failed:
  "set_keyboard_color rgb 0 DevFailed =
     ([Command (color_string rgb), Print ''Program g810-led failed; check keyboard connection''],
      Inl SystemExit)"
  by (simp add: set_keyboard_color_def)

lemma py_sleep_ok:
  assumes "0 \<le> secs" and "secs \<le> 9 * 10 ^ 9"
  shows "py_sleep (Fin secs) = ([Sleep secs], Inr ())"
proof -
  have "secs * 10 ^ 9 \<le> 9 * 10 ^ 9 * 10 ^ 9"
    using assms(2) by simp
  then have "secs * 10 ^ 9 < 2 ^ 63"
    by simp
  moreover have "0 \<le> secs * 10 ^ 9"
    using assms(1) by simp
  ultimately show ?thesis
    using assms(1) by simp
qed

lemma py_sleep_too_long: "py_sleep (Fin (10 ^ 10)) = ([], Inl OverflowError)"
  by simp


lemma blink_loop_fails:
  assumes "0 \<le> iv" and "iv \<le> 9 * 10 ^ 9"
  shows "j < 2 * n \<Longrightarrow> dev (k + j) = DevFailed \<Longrightarrow> (\<forall>i < j. dev (k + i) = DevOk) \<Longrightarrow>
         snd (blink_loop n C M (Fin iv) dev k) = Inl SystemExit"
proof (induction n arbitrary: k j)
  case 0
  then show ?case by simp
next
  case (Suc n)
  consider "j = 0" | "j = 1" | "2 \<le> j" by linarith
  then show ?case
  proof cases
    case 1
    with Suc.prems show ?thesis
      by (simp add: set_keyboard_color_failed andthen_Inl)
  next
    case 2
    have d0: "dev k = DevOk" using Suc.prems(3) [rule_format, of 0] 2 by simp
    from 2 Suc.prems(2) have "dev (k + 1) = DevFailed" by simp
    with d0 show ?thesis
      by (simp add: set_keyboard_color_ok set_keyboard_color_failed py_sleep_ok [OF assms]
          andthen_Inr andthen_Inl del: py_sleep.simps)
  next
    case 3
    have d0: "dev k = DevOk" using Suc.prems(3) [rule_format, of 0] 3 by simp
    have d1: "dev (k + 1) = DevOk" using Suc.prems(3) [rule_format, of 1] 3 by simp
    have a: "j - 2 < 2 * n" using 3 Suc.prems(1) by simp
    have e: "k + 2 + (j - 2) = k + j" using 3 by simp
    have b: "dev (k + 2 + (j - 2)) = DevFailed" unfolding e by (rule Suc.prems(2))
    have c: "\<forall>i < j - 2. dev (k + 2 + i) = DevOk"
    proof (intro allI impI)
      fix i assume "i < j - 2"
      then have "i + 2 < j" by simp
      from Suc.prems(3) [rule_format, OF this] show "dev (k + 2 + i) = DevOk"
        by (simp add: add.commute add.left_commute)
    qed
    from Suc.IH [OF a b c] show ?thesis
      using d0 d1
      by (simp add: set_keyboard_color_ok py_sleep_ok [OF assms] andthen_Inr del: py_sleep.simps)
  qed
qed

text \<open>An interval of \<open>10 ^ 10\<close> seconds: the first sleep raises, after one command.\<close>

lemma blink_overlong_interval:
  "notification_blink C M 2 (Fin (10 ^ 10)) all_ok = ([Command (color_string C)], Inl OverflowError)"
proof -
  have "nat 2 = Suc (Suc 0)" by simp
  then show ?thesis
    unfolding notification_blink_def
    by (simp add: all_ok_def set_keyboard_color_ok andthen_Inr andthen_Inl del: nat_numeral)
qed

lemma scan_settings_resolved:
  assumes "list_all complete_setting settings"
    and "resolve name settings = Some n"
    and "so_color n = Some C" and "so_count n = Some cnt" and "so_interval n = Some iv"
  shows "scan_settings name (Some M) dev settings = notification_blink C M cnt iv dev"
  using assms
proof (induction settings)
  case Nil
  then show ?case by (simp add: resolve_def)
next
  case (Cons x xs)
  from Cons.prems(1) obtain t where t: "so_name x = Some t"
    by (auto simp: complete_setting_def)
  show ?case
  proof (cases "t = Text name")
    case True
    with t Cons.prems(2) have "n = x" by (simp add: resolve_def)
    with True t Cons.prems show ?thesis by simp
  next
    case False
    with t Cons.prems(2) have "resolve name xs = Some n" by (simp add: resolve_def)
    with Cons False t show ?thesis by auto
  qed
qed

lemma scan_settings_unset:
  assumes "list_all complete_setting settings"
    and "resolve name settings = Some n"
  shows "scan_settings name None dev settings = ([], Inl (NameError ''meter_color''))"
  using assms
proof (induction settings)
  case Nil
  then show ?case by (simp add: resolve_def)
next
  case (Cons x xs)
  from Cons.prems(1) obtain t c where t: "so_name x = Some t" "so_color x = Some c"
    by (auto simp: complete_setting_def)
  show ?case
  proof (cases "t = Text name")
    case True
    with t show ?thesis by simp
  next
    case False
    with t Cons.prems(2) have "resolve name xs = Some n" by (simp add: resolve_def)
    with Cons False t show ?thesis by auto
  qed
qed

lemma scan_settings_unresolved:
  assumes "list_all complete_setting settings"
    and "resolve name settings = None"
  shows "scan_settings name mc dev settings = ([], Inr ())"
  using assms
proof (induction settings)
  case Nil
  then show ?case by simp
next
  case (Cons x xs)
  from Cons.prems(1) obtain t where t: "so_name x = Some t"
    by (auto simp: complete_setting_def)
  with Cons show ?case
    by (auto simp: resolve_def split: if_splits)
qed

lemma commands_append: "commands (xs @ ys) = commands xs @ commands ys"
  by (induction xs rule: commands.induct) simp_all


subsection \<open>One iteration of the main loop\<close>

lemma SAMPLING_nonneg: "0 \<le> SAMPLING"
  by (simp add: SAMPLING_def)

lemma SAMPLING_short: "SAMPLING \<le> 9 * 10 ^ 9"
  by (simp add: SAMPLING_def)

lemma monitoring_tick:
  assumes "NOTIFY s = []"
    and "current_sampling s < length (cpu_load_cache s)"
    and "device inp 0 = DevOk \<or> device inp 0 = DevFailed \<and> persistent a \<noteq> 0"
  shows "loop_body rnd a inp s =
     (let cache = (cpu_load_cache s)[current_sampling s := py_int (reading inp)];
          cpu_load = rnd (of_int (sum_list cache) / of_int (int (length (cpu_load_cache s))));
          mc = get_load_color rnd cpu_load
      in (Command (color_string mc) #
          (if verbose a \<noteq> 0
           then [ClearScreen, Print ''G Series Keyboard control'', PrintColor mc, PrintLoad cpu_load]
           else []) @ [Sleep SAMPLING],
          Inr (s\<lparr>cpu_load_cache := cache,
                  current_sampling :=
                    (if length (cpu_load_cache s) \<le> Suc (current_sampling s) then 0
                     else Suc (current_sampling s)),
                  meter_color := Some mc\<rparr>)))"
  using assms(3)
  unfolding loop_body_def sample_step [OF assms(2)]
  by (auto simp: assms(1) Let_def set_keyboard_color_ok set_keyboard_color_swallowed
      py_sleep_ok [OF SAMPLING_nonneg SAMPLING_short] andthen_Inr simp del: py_sleep.simps)

lemma monitoring_tick_fails:
  assumes "NOTIFY s = []"
    and "current_sampling s < length (cpu_load_cache s)"
    and "device inp 0 = DevFailed" and "persistent a = 0"
  shows "snd (loop_body rnd a inp s) = Inl SystemExit"
  unfolding loop_body_def sample_step [OF assms(2)]
  by (simp add: assms Let_def set_keyboard_color_failed andthen_Inl)

lemma blinking_tick_fails:
  assumes "NOTIFY s \<noteq> []"
    and "list_all complete_setting (notification_settings_list s)"
    and "resolve (NOTIFY s) (notification_settings_list s) = Some n"
    and "so_color n = Some C" and "so_count n = Some cnt" and "so_interval n = Some (Fin iv)"
    and "meter_color s = Some M"
    and "0 \<le> iv" and "iv \<le> 9 * 10 ^ 9"
    and "j < 2 * nat cnt" and "device inp j = DevFailed" and "\<forall>i < j. device inp i = DevOk"
  shows "snd (loop_body rnd a inp s) = Inl SystemExit"
proof -
  have "snd (blink_loop (nat cnt) C M (Fin iv) (device inp) 0) = Inl SystemExit"
    using blink_loop_fails [OF assms(8,9), of j "nat cnt" "device inp" 0 C M] assms(10-12)
    by simp
  then have "snd (scan_settings (NOTIFY s) (meter_color s) (device inp)
      (notification_settings_list s)) = Inl SystemExit"
    unfolding assms(7) scan_settings_resolved [OF assms(2-6)] notification_blink_def .
  then show ?thesis
    unfolding loop_body_def using assms(1)
    by (simp add: andthen_Inr andthen_fails)
qed

lemma main_loop_step:
  assumes "loop_body rnd a inp (notification_scanner (arrived inp) s) = (es, Inr s')"
  shows "main_loop rnd a (inp # inps) s =
     (es @ fst (main_loop rnd a inps s'), snd (main_loop rnd a inps s'))"
  by (simp add: assms andthen_Inr)

lemma notification_scanner_last:
  "NOTIFY (notification_scanner (messages @ [b # rest]) s) = b"
  by (induction messages arbitrary: s)
    (simp_all add: notification_event_def split: list.splits)

subsection \<open>Loading the settings\<close>

lemma has_key_empty: "\<not> has_key b empty_object"
  by (simp add: has_key_def empty_object_def)

lemma has_key_name: "has_key ''name'' obj \<longleftrightarrow> so_name obj \<noteq> None"
  by (simp add: has_key_def)
lemma has_key_color: "has_key ''color'' obj \<longleftrightarrow> so_color obj \<noteq> None"
  by (simp add: has_key_def)
lemma has_key_count: "has_key ''count'' obj \<longleftrightarrow> so_count obj \<noteq> None"
  by (simp add: has_key_def)
lemma has_key_interval: "has_key ''interval'' obj \<longleftrightarrow> so_interval obj \<noteq> None"
  by (simp add: has_key_def)

lemma mandatory_cases:
  "b \<in> set NOTIFICATION_SETTINGS_MANDATORY_ATTRIBUTES \<longleftrightarrow>
     b = ''name'' \<or> b = ''color'' \<or> b = ''count'' \<or> b = ''interval''"
  by (simp add: NOTIFICATION_SETTINGS_MANDATORY_ATTRIBUTES_def)

lemma assign_element_keys:
  assumes "assign_element int_of float_of (tag, tx) obj = Inr obj'"
  shows "(so_name obj' \<noteq> None \<longleftrightarrow> so_name obj \<noteq> None \<or> tag = ''name'') \<and>
         (so_color obj' \<noteq> None \<longleftrightarrow> so_color obj \<noteq> None \<or> tag = ''color'') \<and>
         (so_count obj' \<noteq> None \<longleftrightarrow> so_count obj \<noteq> None \<or> tag = ''count'') \<and>
         (so_interval obj' \<noteq> None \<longleftrightarrow> so_interval obj \<noteq> None \<or> tag = ''interval'')"
proof -
  consider "tag = ''name''" | "tag = ''color''" | "tag = ''count''" | "tag = ''interval''"
    | "tag \<noteq> ''name''" "tag \<noteq> ''color''" "tag \<noteq> ''count''" "tag \<noteq> ''interval''"
    by blast
  then show ?thesis
  proof cases
    case 1
    with assms have "obj' = obj\<lparr>so_name := Some tx\<rparr>"
      by (simp add: assign_element_def)
    with 1 show ?thesis by simp
  next
    case 2
    with assms obtain c where "obj' = obj\<lparr>so_color := Some c\<rparr>"
      by (auto simp: assign_element_def split: xml_text.splits sum.splits)
    with 2 show ?thesis by simp
  next
    case 3
    with assms obtain c where "obj' = obj\<lparr>so_count := Some c\<rparr>"
      by (auto simp: assign_element_def split: xml_text.splits option.splits)
    with 3 show ?thesis by simp
  next
    case 4
    with assms obtain c where "obj' = obj\<lparr>so_interval := Some c\<rparr>"
      by (auto simp: assign_element_def split: xml_text.splits option.splits)
    with 4 show ?thesis by simp
  next
    case 5
    with assms have "obj' = obj"
      by (simp add: assign_element_def)
    with 5 show ?thesis by simp
  qed
qed

lemma has_key_assign_element:
  assumes "assign_element int_of float_of (tag, tx) obj = Inr obj'"
    and "b \<in> set NOTIFICATION_SETTINGS_MANDATORY_ATTRIBUTES"
  shows "has_key b obj' \<longleftrightarrow> has_key b obj \<or> tag = b"
proof -
  note k = assign_element_keys [OF assms(1)]
  from assms(2) consider "b = ''name''" | "b = ''color''" | "b = ''count''" | "b = ''interval''"
    unfolding mandatory_cases by blast
  then show ?thesis
  proof cases
    case 1 show ?thesis unfolding 1 has_key_name using k by simp
  next
    case 2 show ?thesis unfolding 2 has_key_color using k by simp
  next
    case 3 show ?thesis unfolding 3 has_key_count using k by simp
  next
    case 4 show ?thesis unfolding 4 has_key_interval using k by simp
  qed
qed

lemma has_key_assign_elements:
  assumes "b \<in> set NOTIFICATION_SETTINGS_MANDATORY_ATTRIBUTES"
  shows "assign_elements int_of float_of node obj = Inr obj' \<Longrightarrow>
         has_key b obj' \<longleftrightarrow> has_key b obj \<or> b \<in> fst ` set node"
proof (induction node arbitrary: obj)
  case Nil
  then show ?case by simp
next
  case (Cons el els)
  obtain tag tx where el: "el = (tag, tx)" by (cases el)
  from Cons.prems obtain obj1 where
    1: "assign_element int_of float_of (tag, tx) obj = Inr obj1"
    and 2: "assign_elements int_of float_of els obj1 = Inr obj'"
    unfolding el by (auto split: sum.splits)
  have "b \<in> fst ` set (el # els) \<longleftrightarrow> tag = b \<or> b \<in> fst ` set els"
    unfolding el by (simp add: eq_commute)
  with Cons.IH [OF 2] has_key_assign_element [OF 1 assms] show ?case
    by simp
qed

lemma check_attributes_find:
  "check_attributes attrs obj =
     (case find (\<lambda>b. \<not> has_key b obj) attrs of
        None \<Rightarrow> Inr ()
      | Some b \<Rightarrow> Inl (ValueError (''Missing element in notification settings XML: '' @ b)))"
  by (induction attrs) simp_all

lemma find_cong_set:
  "(\<And>x. x \<in> set xs \<Longrightarrow> P x = Q x) \<Longrightarrow> find P xs = find Q xs"
  by (induction xs) simp_all

lemma check_attributes_node:
  assumes "assign_elements int_of float_of node empty_object = Inr obj"
  shows "check_attributes NOTIFICATION_SETTINGS_MANDATORY_ATTRIBUTES obj =
     (case find (\<lambda>b. b \<notin> fst ` set node) NOTIFICATION_SETTINGS_MANDATORY_ATTRIBUTES of
        None \<Rightarrow> Inr ()
      | Some b \<Rightarrow> Inl (ValueError (''Missing element in notification settings XML: '' @ b)))"
proof -
  have "find (\<lambda>b. \<not> has_key b obj) NOTIFICATION_SETTINGS_MANDATORY_ATTRIBUTES =
        find (\<lambda>b. b \<notin> fst ` set node) NOTIFICATION_SETTINGS_MANDATORY_ATTRIBUTES"
    by (rule find_cong_set) (simp add: has_key_assign_elements [OF _ assms] has_key_empty)
  then show ?thesis
    unfolding check_attributes_find by simp
qed

lemma parse_nodes_append:
  "parse_nodes int_of float_of (pre @ rest) acc =
     (case parse_nodes int_of float_of pre acc of
        Inl e \<Rightarrow> Inl e
      | Inr out \<Rightarrow> parse_nodes int_of float_of rest out)"
  by (induction pre arbitrary: acc) (simp_all split: sum.splits)

lemma parse_nodes_missing:
  assumes "parse_nodes int_of float_of pre [] = Inr out"
    and "assign_elements int_of float_of node empty_object = Inr obj"
    and "find (\<lambda>b. b \<notin> fst ` set node) NOTIFICATION_SETTINGS_MANDATORY_ATTRIBUTES = Some attr"
  shows "parse_nodes int_of float_of (pre @ node # post) [] =
     Inl (ValueError (''Missing element in notification settings XML: '' @ attr))"
  unfolding parse_nodes_append assms(1)
  by (simp add: assms(2) check_attributes_node [OF assms(2)] assms(3))

lemma parse_nodes_incomplete:
  assumes "node \<in> set nodes"
    and "b \<in> set NOTIFICATION_SETTINGS_MANDATORY_ATTRIBUTES" and "b \<notin> fst ` set node"
  shows "\<exists>e. parse_nodes int_of float_of nodes acc = Inl e"
  using assms(1)
proof (induction nodes arbitrary: acc)
  case Nil
  then show ?case by simp
next
  case (Cons x xs)
  show ?case
  proof (cases "assign_elements int_of float_of x empty_object")
    case (Inl e)
    then show ?thesis by simp
  next
    case (Inr obj)
    show ?thesis
    proof (cases "x = node")
      case True
      have "find (\<lambda>b. b \<notin> fst ` set node) NOTIFICATION_SETTINGS_MANDATORY_ATTRIBUTES \<noteq> None"
        using assms(2,3) by (auto simp: find_None_iff)
      then show ?thesis
        using Inr True check_attributes_node [of int_of float_of node obj] by auto
    next
      case False
      with Cons.prems have "node \<in> set xs" by simp
      from Cons.IH [OF this] show ?thesis
        using Inr by (auto split: sum.splits)
    qed
  qed
qed

lemma main_settings_error:
  assumes "notify a \<noteq> 0"
    and "parse_notification_settings_from_xml int_of float_of file = Inl e"
  shows "main rnd int_of float_of a file inps =
     ([Print ''Error in executing notification monitoring setup; check notification setting file'',
       PrintRepr e], Inl SystemExit)"
  by (simp add: main_def startup_def assms andthen_Inl)

lemma check_attributes_complete:
  assumes "check_attributes NOTIFICATION_SETTINGS_MANDATORY_ATTRIBUTES obj = Inr u"
  shows "complete_setting obj"
proof -
  from assms have "find (\<lambda>b. \<not> has_key b obj) NOTIFICATION_SETTINGS_MANDATORY_ATTRIBUTES = None"
    unfolding check_attributes_find by (simp split: option.splits)
  then have "\<forall>b \<in> set NOTIFICATION_SETTINGS_MANDATORY_ATTRIBUTES. has_key b obj"
    by (simp add: find_None_iff)
  then have "has_key ''name'' obj" "has_key ''color'' obj" "has_key ''count'' obj"
    "has_key ''interval'' obj"
    by (simp_all add: mandatory_cases)
  then show ?thesis
    unfolding has_key_name has_key_color has_key_count has_key_interval complete_setting_def
    by simp
qed

lemma parse_nodes_complete:
  "parse_nodes int_of float_of nodes acc = Inr out \<Longrightarrow> list_all complete_setting acc \<Longrightarrow>
   list_all complete_setting out"
proof (induction nodes arbitrary: acc)
  case Nil
  then show ?case by simp
next
  case (Cons x xs)
  from Cons.prems(1) obtain obj u where
    1: "assign_elements int_of float_of x empty_object = Inr obj"
    and 2: "check_attributes NOTIFICATION_SETTINGS_MANDATORY_ATTRIBUTES obj = Inr u"
    and 3: "parse_nodes int_of float_of xs (acc @ [obj]) = Inr out"
    by (auto split: sum.splits)
  have "list_all complete_setting (acc @ [obj])"
    using Cons.prems(2) check_attributes_complete [OF 2] by simp
  from Cons.IH [OF 3 this] show ?case .
qed

subsection \<open>The states the program reaches\<close>

lemma startup_shape:
  assumes "startup int_of float_of a file = (es, Inr s)"
  shows "reachable_shape s \<and> NOTIFY s = [] \<and> meter_color s = None"
proof (cases "notify a \<noteq> 0")
  case True
  with assms obtain l where
    l: "parse_notification_settings_from_xml int_of float_of file = Inr l"
    and s: "s = \<lparr>NOTIFY = [], cpu_load_cache = replicate SAMPLES 50, current_sampling = 0,
                meter_color = None, notification_settings_list = l\<rparr>"
    by (auto simp: startup_def Let_def split: sum.splits)
  from l obtain nodes where "parse_nodes int_of float_of nodes [] = Inr l"
    by (auto simp: parse_notification_settings_from_xml_def split: sum.splits)
  from parse_nodes_complete [OF this] have "list_all complete_setting l" by simp
  then show ?thesis
    unfolding s reachable_shape_def by (simp add: SAMPLES_def)
next
  case False
  with assms have "s = \<lparr>NOTIFY = [], cpu_load_cache = replicate SAMPLES 50, current_sampling = 0,
                meter_color = None, notification_settings_list = []\<rparr>"
    by (simp add: startup_def Let_def)
  then show ?thesis
    unfolding reachable_shape_def by (simp add: SAMPLES_def)
qed

lemma notification_scanner_fields:
  "cpu_load_cache (notification_scanner ms s) = cpu_load_cache s \<and>
   current_sampling (notification_scanner ms s) = current_sampling s \<and>
   meter_color (notification_scanner ms s) = meter_color s \<and>
   notification_settings_list (notification_scanner ms s) = notification_settings_list s"
  by (induction ms arbitrary: s) (simp_all add: notification_event_def split: list.splits)

lemma andthen_Inr_elim:
  assumes "andthen m f = (es, Inr y)"
  obtains es1 x es2 where "m = (es1, Inr x)" "f x = (es2, Inr y)"
  using assms by (auto simp: andthen_def split: prod.splits sum.splits)

lemma loop_body_shape:
  assumes "loop_body rnd a inp s = (es, Inr s')" and "reachable_shape s"
  shows "reachable_shape s'"
proof (cases "NOTIFY s = []")
  case True
  from assms(2) have c: "current_sampling s < length (cpu_load_cache s)"
    by (simp add: reachable_shape_def)
  from assms(1) obtain e1 e2 where "(es, Inr s') = (e1, Inr (s\<lparr>cpu_load_cache := (cpu_load_cache s)[current_sampling s := py_int (reading inp)],
       current_sampling := (if length (cpu_load_cache s) \<le> Suc (current_sampling s) then 0 else Suc (current_sampling s)),
       meter_color := Some e2\<rparr>))"
    unfolding loop_body_def sample_step [OF c] using True
    by (auto simp: Let_def elim!: andthen_Inr_elim)
  then show ?thesis
    using assms(2) c by (auto simp: reachable_shape_def)
next
  case False
  with assms(1) have "s' = s\<lparr>NOTIFY := []\<rparr>"
    unfolding loop_body_def by (auto elim!: andthen_Inr_elim)
  with assms(2) show ?thesis by (simp add: reachable_shape_def)
qed

lemma main_loop_shape:
  "main_loop rnd a inps s = (es, Inr s') \<Longrightarrow> reachable_shape s \<Longrightarrow> reachable_shape s'"
proof (induction inps arbitrary: s es)
  case Nil
  then show ?case by simp
next
  case (Cons inp inps)
  from Cons.prems(1) obtain e1 s1 e2 where
    1: "loop_body rnd a inp (notification_scanner (arrived inp) s) = (e1, Inr s1)"
    and 2: "main_loop rnd a inps s1 = (e2, Inr s')"
    by (auto elim!: andthen_Inr_elim)
  have "reachable_shape (notification_scanner (arrived inp) s)"
    using Cons.prems(2) notification_scanner_fields [of "arrived inp" s]
    by (simp add: reachable_shape_def)
  from Cons.IH [OF 2 loop_body_shape [OF 1 this]] show ?case .
qed

lemma main_shape:
  assumes "main rnd int_of float_of a file inps = (es, Inr s)"
  shows "reachable_shape s"
proof -
  from assms obtain e1 s0 e2 where
    1: "startup int_of float_of a file = (e1, Inr s0)"
    and 2: "main_loop rnd a inps s0 = (e2, Inr s)"
    unfolding main_def by (auto elim!: andthen_Inr_elim)
  from startup_shape [OF 1] have "reachable_shape s0" by simp
  from main_loop_shape [OF 2 this] show ?thesis .
qed

subsection \<open>Claims about the sampler and the pending cell\<close>

text \<open>
  C7: each recording overwrites the slot at the cursor, moves the cursor to the next slot
  modulo the capacity and returns the mean of the buffer as it is then; a run of
  recordings is these steps one after the other, and none changes the length of the
  buffer. So a buffer of capacity \<open>N\<close> pre-filled with any value and cursor 0, after \<open>N\<close>
  recordings of the sample \<open>V\<close>, holds \<open>V\<close> in every slot, has its cursor back at 0 and
  returns the average \<open>V\<close> exactly. The sample there is an integer that a float holds
  exactly, as every percentage is.
\<close>

theorem sampler_converges:
  assumes "float_rounding rnd" and "0 < N" and "\<bar>V\<bar> \<le> 2 ^ 52"
  shows "feed rnd (replicate N V) (replicate N pre, 0) None =
           Inr ((replicate N V, 0), Some (of_int V)) \<and>
         (\<forall>vs c i l c' i' l'.
            feed rnd vs (c, i) l = Inr ((c', i'), l') \<longrightarrow> length c' = length c) \<and>
         (\<forall>c i v. i < length c \<longrightarrow>
            sample_cpu_load rnd v (c, i) =
              Inr ((c[i := v], (i + 1) mod length c),
                   rnd (of_int (sum_list (c[i := v])) / of_int (int (length c))))) \<and>
         (\<forall>c i v vs l. i < length c \<longrightarrow>
            feed rnd (v # vs) (c, i) l =
              feed rnd vs (c[i := v], (i + 1) mod length c)
                (Some (rnd (of_int (sum_list (c[i := v])) / of_int (int (length c)))))) \<and>
         (\<forall>st l. feed rnd [] st l = Inr (st, l))"
proof -
  have 1: "feed rnd (replicate N V) (replicate N pre, 0) None =
      Inr ((replicate N V, 0), Some (of_int V))"
    using feed_fill [OF assms(1) assms(3) assms(2), of 0 pre None] by simp
  have 2: "\<forall>vs c i l c' i' l'.
      feed rnd vs (c, i) l = Inr ((c', i'), l') \<longrightarrow> length c' = length c"
    using feed_length by blast
  have 3: "\<forall>c i v. i < length c \<longrightarrow>
      sample_cpu_load rnd v (c, i) =
        Inr ((c[i := v], (i + 1) mod length c),
             rnd (of_int (sum_list (c[i := v])) / of_int (int (length c))))"
    using sample_step_mod by blast
  have 4: "\<forall>c i v vs l. i < length c \<longrightarrow>
      feed rnd (v # vs) (c, i) l =
        feed rnd vs (c[i := v], (i + 1) mod length c)
          (Some (rnd (of_int (sum_list (c[i := v])) / of_int (int (length c)))))"
    by (simp add: sample_step_mod)
  have 5: "\<forall>st l. feed rnd [] st l = Inr (st, l)"
    by simp
  from 1 2 3 4 5 show ?thesis by (intro conjI)
qed

theorem sampler_converges_witness:
  "float_rounding (\<lambda>x. x) \<and> 0 < SAMPLES \<and> \<bar>7::int\<bar> \<le> 2 ^ 52 \<and>
   feed (\<lambda>x. x) (replicate SAMPLES 7) (replicate SAMPLES 50, 0) None =
     Inr ((replicate SAMPLES 7, 0), Some 7) \<and>
   length (replicate SAMPLES (7::int)) = length (replicate SAMPLES (50::int)) \<and>
   sample_cpu_load (\<lambda>x. x) 10 ([50, 50, 50], 0) = Inr (([10, 50, 50], 1), 110 / 3) \<and>
   sample_cpu_load (\<lambda>x. x) 20 ([10, 50, 50], 1) = Inr (([10, 20, 50], 2), 80 / 3) \<and>
   sample_cpu_load (\<lambda>x. x) 30 ([10, 20, 50], 2) = Inr (([10, 20, 30], 0), 20) \<and>
   feed (\<lambda>x. x) [10, 20] ([50, 50, 50], 0) None = Inr (([10, 20, 50], 2), Some (80 / 3))"
proof -
  have n: "0 < SAMPLES" by (simp add: SAMPLES_def)
  have v: "\<bar>7::int\<bar> \<le> 2 ^ 52" by simp
  note t = sampler_converges [OF float_rounding_id n v, of 50]
  from t have f: "feed (\<lambda>x. x) (replicate SAMPLES 7) (replicate SAMPLES 50, 0) None =
      Inr ((replicate SAMPLES 7, 0), Some 7)"
    by simp
  note len = t [THEN conjunct2, THEN conjunct1, rule_format]
  from len [OF f] have l: "length (replicate SAMPLES (7::int)) = length (replicate SAMPLES (50::int))" .
  note step = t [THEN conjunct2, THEN conjunct2, THEN conjunct1, rule_format]
  have s1: "sample_cpu_load (\<lambda>x. x) 10 ([50, 50, 50], 0) = Inr (([10, 50, 50], 1), 110 / 3)"
    using step [of 0 "[50, 50, 50]" 10] by simp
  have s2: "sample_cpu_load (\<lambda>x. x) 20 ([10, 50, 50], 1) = Inr (([10, 20, 50], 2), 80 / 3)"
    using step [of 1 "[10, 50, 50]" 20] by simp
  have s3: "sample_cpu_load (\<lambda>x. x) 30 ([10, 20, 50], 2) = Inr (([10, 20, 30], 0), 20)"
    using step [of 2 "[10, 20, 50]" 30] by simp
  note fstep = t [THEN conjunct2, THEN conjunct2, THEN conjunct2, THEN conjunct1, rule_format]
  note fnil = t [THEN conjunct2, THEN conjunct2, THEN conjunct2, THEN conjunct2, rule_format]
  have "feed (\<lambda>x. x) [10, 20] ([50, 50, 50], 0) None =
      feed (\<lambda>x. x) [20] ([10, 50, 50], 1) (Some (110 / 3))"
    using fstep [of 0 "[50, 50, 50]" 10 "[20]" None] by simp
  also have "\<dots> = feed (\<lambda>x. x) [] ([10, 20, 50], 2) (Some (80 / 3))"
    using fstep [of 1 "[10, 50, 50]" 20 "[]" "Some (110 / 3)"] by simp
  also have "\<dots> = Inr (([10, 20, 50], 2), Some (80 / 3))"
    by (rule fnil)
  finally have f2: "feed (\<lambda>x. x) [10, 20] ([50, 50, 50], 0) None =
      Inr (([10, 20, 50], 2), Some (80 / 3))" .
  from float_rounding_id n v f l s1 s2 s3 f2 show ?thesis by (intro conjI)
qed

text \<open>
  C10: the pending cell keeps the last name written. After the messages of \<open>A\<close> and then
  of \<open>B\<close>, and after any sequence of messages that ends with the one of \<open>B\<close>, the cell
  reads \<open>B\<close>; a write replaces the value whatever it was.
\<close>

theorem pending_cell_last_writer_wins:
  "NOTIFY (notification_scanner [A # as, B # bs] s) = B \<and>
   NOTIFY (notification_scanner (messages @ [B # bs]) s) = B \<and>
   notification_event (B # bs) s = Inr (s\<lparr>NOTIFY := B\<rparr>)"
proof -
  have "NOTIFY (notification_scanner ([A # as] @ [B # bs]) s) = B"
    by (rule notification_scanner_last)
  then have "NOTIFY (notification_scanner [A # as, B # bs] s) = B"
    by simp
  moreover have "NOTIFY (notification_scanner (messages @ [B # bs]) s) = B"
    by (rule notification_scanner_last)
  moreover have "notification_event (B # bs) s = Inr (s\<lparr>NOTIFY := B\<rparr>)"
    by (simp add: notification_event_def)
  ultimately show ?thesis by simp
qed

subsection \<open>Claims about the main loop\<close>


lemma example_state_fields:
  "NOTIFY (example_state name mc) = name"
  "cpu_load_cache (example_state name mc) = replicate SAMPLES 50"
  "current_sampling (example_state name mc) = 0"
  "meter_color (example_state name mc) = mc"
  "notification_settings_list (example_state name mc) = [telegram]"
  by (simp_all add: example_state_def)

lemma example_state_clear:
  "(example_state name mc)\<lparr>NOTIFY := []\<rparr> = example_state [] mc"
  by (simp add: example_state_def)

lemma telegram_fields:
  "so_name telegram = Some (Text ''Telegram Desktop'')"
  "so_color telegram = Some [0, 190, 255]"
  "so_count telegram = Some 2"
  "so_interval telegram = Some (Fin (3 / 10))"
  by (simp_all add: telegram_def)

lemma telegram_complete: "complete_setting telegram"
  by (simp add: complete_setting_def telegram_fields)

lemma resolve_telegram: "resolve ''Telegram Desktop'' [telegram] = Some telegram"
  by (simp add: resolve_def telegram_fields)

lemma resolve_spotify: "resolve ''Spotify'' [telegram] = None"
  by (simp add: resolve_def telegram_fields)




text \<open>
  C2: a display command that fails in a Monitoring iteration is swallowed when persistent
  mode is on: the iteration ends as it does when the command succeeds, and the loop goes
  on with the next one. With persistent mode off it ends the process. In a Blinking
  iteration the first failing display command ends the process, whatever the mode; the
  interval there is a length that \<^verbatim>\<open>time.sleep\<close> takes, from 0 to \<open>9 * 10 ^ 9\<close> seconds.
\<close>

theorem persistent_mode_scope:
  "(NOTIFY s = [] \<and> current_sampling s < length (cpu_load_cache s) \<and>
    device inp 0 = DevFailed \<and> persistent a \<noteq> 0 \<longrightarrow>
      loop_body rnd a inp s = loop_body rnd a (inp\<lparr>device := all_ok\<rparr>) s \<and>
      (\<exists>es s'. loop_body rnd a inp s = (es, Inr s') \<and>
         (arrived inp = [] \<longrightarrow>
            main_loop rnd a (inp # inps) s =
              (es @ fst (main_loop rnd a inps s'), snd (main_loop rnd a inps s'))))) \<and>
   (NOTIFY s = [] \<and> current_sampling s < length (cpu_load_cache s) \<and>
    device inp 0 = DevFailed \<and> persistent a = 0 \<longrightarrow>
      snd (loop_body rnd a inp s) = Inl SystemExit) \<and>
   (NOTIFY s \<noteq> [] \<and> list_all complete_setting (notification_settings_list s) \<and>
    resolve (NOTIFY s) (notification_settings_list s) = Some n \<and>
    so_color n = Some C \<and> so_count n = Some cnt \<and> so_interval n = Some (Fin iv) \<and>
    meter_color s = Some M \<and> 0 \<le> iv \<and> iv \<le> 9 * 10 ^ 9 \<and>
    j < 2 * nat cnt \<and> device inp j = DevFailed \<and> (\<forall>i < j. device inp i = DevOk) \<longrightarrow>
      snd (loop_body rnd a inp s) = Inl SystemExit)"
proof (intro conjI impI)
  assume h: "NOTIFY s = [] \<and> current_sampling s < length (cpu_load_cache s) \<and>
    device inp 0 = DevFailed \<and> persistent a \<noteq> 0"
  then have d: "device inp 0 = DevOk \<or> device inp 0 = DevFailed \<and> persistent a \<noteq> 0"
    by simp
  have d': "device (inp\<lparr>device := all_ok\<rparr>) 0 = DevOk \<or>
      device (inp\<lparr>device := all_ok\<rparr>) 0 = DevFailed \<and> persistent a \<noteq> 0"
    by (simp add: all_ok_def)
  from h have n: "NOTIFY s = []" and c: "current_sampling s < length (cpu_load_cache s)"
    by simp_all
  show "loop_body rnd a inp s = loop_body rnd a (inp\<lparr>device := all_ok\<rparr>) s"
    unfolding monitoring_tick [OF n c d] monitoring_tick [OF n c d'] by simp
  obtain es s' where r: "loop_body rnd a inp s = (es, Inr s')"
    unfolding monitoring_tick [OF n c d] Let_def by blast
  have "arrived inp = [] \<longrightarrow>
      main_loop rnd a (inp # inps) s =
        (es @ fst (main_loop rnd a inps s'), snd (main_loop rnd a inps s'))"
  proof
    assume "arrived inp = []"
    then have "loop_body rnd a inp (notification_scanner (arrived inp) s) = (es, Inr s')"
      using r by simp
    then show "main_loop rnd a (inp # inps) s =
        (es @ fst (main_loop rnd a inps s'), snd (main_loop rnd a inps s'))"
      by (rule main_loop_step)
  qed
  with r show "\<exists>es s'. loop_body rnd a inp s = (es, Inr s') \<and>
      (arrived inp = [] \<longrightarrow>
         main_loop rnd a (inp # inps) s =
           (es @ fst (main_loop rnd a inps s'), snd (main_loop rnd a inps s')))"
    by blast
next
  assume "NOTIFY s = [] \<and> current_sampling s < length (cpu_load_cache s) \<and>
    device inp 0 = DevFailed \<and> persistent a = 0"
  then show "snd (loop_body rnd a inp s) = Inl SystemExit"
    using monitoring_tick_fails by blast
next
  assume "NOTIFY s \<noteq> [] \<and> list_all complete_setting (notification_settings_list s) \<and>
    resolve (NOTIFY s) (notification_settings_list s) = Some n \<and>
    so_color n = Some C \<and> so_count n = Some cnt \<and> so_interval n = Some (Fin iv) \<and>
    meter_color s = Some M \<and> 0 \<le> iv \<and> iv \<le> 9 * 10 ^ 9 \<and>
    j < 2 * nat cnt \<and> device inp j = DevFailed \<and> (\<forall>i < j. device inp i = DevOk)"
  then show "snd (loop_body rnd a inp s) = Inl SystemExit"
    using blinking_tick_fails [of s n C cnt iv M j inp rnd a] by blast
qed

theorem persistent_mode_scope_witness:
  "fails_at 0 0 = DevFailed \<and>
   loop_body (\<lambda>x. x) \<lparr>verbose = 0, persistent = 1, notify = 0\<rparr>
     \<lparr>arrived = [], reading = 40, device = fails_at 0\<rparr> (example_state [] None) =
   loop_body (\<lambda>x. x) \<lparr>verbose = 0, persistent = 1, notify = 0\<rparr>
     \<lparr>arrived = [], reading = 40, device = all_ok\<rparr> (example_state [] None) \<and>
   snd (loop_body (\<lambda>x. x) \<lparr>verbose = 0, persistent = 0, notify = 0\<rparr>
     \<lparr>arrived = [], reading = 40, device = fails_at 0\<rparr> (example_state [] None)) =
   Inl SystemExit \<and>
   fails_at 2 2 = DevFailed \<and> fails_at 2 1 = DevOk \<and>
   snd (loop_body (\<lambda>x. x) \<lparr>verbose = 0, persistent = 1, notify = 1\<rparr>
     \<lparr>arrived = [], reading = 40, device = fails_at 2\<rparr>
     (example_state ''Telegram Desktop'' (Some [204, 255, 0]))) =
   Inl SystemExit"
proof -
  let ?s = "example_state [] None"
  let ?b = "example_state ''Telegram Desktop'' (Some [204, 255, 0])"
  let ?i0 = "\<lparr>arrived = [], reading = 40, device = fails_at 0\<rparr>"
  let ?i2 = "\<lparr>arrived = [], reading = 40, device = fails_at 2\<rparr>"
  let ?on = "\<lparr>verbose = 0, persistent = 1, notify = 0\<rparr>"
  let ?off = "\<lparr>verbose = 0, persistent = 0, notify = 0\<rparr>"
  let ?on' = "\<lparr>verbose = 0, persistent = 1, notify = 1\<rparr>"
  have h1: "NOTIFY ?s = [] \<and> current_sampling ?s < length (cpu_load_cache ?s) \<and>
      device ?i0 0 = DevFailed \<and> persistent ?on \<noteq> 0"
    by (simp add: example_state_fields SAMPLES_def fails_at_def)
  have h2: "NOTIFY ?s = [] \<and> current_sampling ?s < length (cpu_load_cache ?s) \<and>
      device ?i0 0 = DevFailed \<and> persistent ?off = 0"
    by (simp add: example_state_fields SAMPLES_def fails_at_def)
  have h3: "NOTIFY ?b \<noteq> [] \<and> list_all complete_setting (notification_settings_list ?b) \<and>
      resolve (NOTIFY ?b) (notification_settings_list ?b) = Some telegram \<and>
      so_color telegram = Some [0, 190, 255] \<and> so_count telegram = Some 2 \<and>
      so_interval telegram = Some (Fin (3 / 10)) \<and>
      meter_color ?b = Some [204, 255, 0] \<and> (0::rat) \<le> 3 / 10 \<and> (3::rat) / 10 \<le> 9 * 10 ^ 9 \<and>
      2 < 2 * nat 2 \<and> device ?i2 2 = DevFailed \<and> (\<forall>i < 2. device ?i2 i = DevOk)"
    by (simp add: example_state_fields telegram_complete resolve_telegram telegram_fields
        fails_at_def)
  note t1 = persistent_mode_scope [where s = ?s and inp = ?i0 and a = ?on and rnd = "\<lambda>x. x",
      THEN conjunct1, THEN mp, OF h1, THEN conjunct1]
  note t2 = persistent_mode_scope [where s = ?s and inp = ?i0 and a = ?off and rnd = "\<lambda>x. x",
      THEN conjunct2, THEN conjunct1, THEN mp, OF h2]
  note t3 = persistent_mode_scope [where s = ?b and inp = ?i2 and a = ?on' and rnd = "\<lambda>x. x"
      and n = telegram and C = "[0, 190, 255]" and cnt = 2 and iv = "3 / 10"
      and M = "[204, 255, 0]" and j = 2,
      THEN conjunct2, THEN conjunct2, THEN mp, OF h3]
  have f: "fails_at 0 0 = DevFailed" "fails_at 2 2 = DevFailed" "fails_at 2 1 = DevOk"
    by (simp_all add: fails_at_def)
  from t1 have t1': "loop_body (\<lambda>x. x) ?on ?i0 ?s =
      loop_body (\<lambda>x. x) ?on \<lparr>arrived = [], reading = 40, device = all_ok\<rparr> ?s"
    by simp
  from f t1' t2 t3 show ?thesis by simp
qed

text \<open>
  C5, as the claim states it, fails: an iteration that finds a pending name with no
  setting issues no display command, so the load colour is not displayed again before
  the loop is back in Monitoring.
\<close>

theorem unmatched_no_redisplay:
  "resolve ''Spotify'' [telegram] = None \<and>
   loop_body (\<lambda>x. x) \<lparr>verbose = 0, persistent = 0, notify = 1\<rparr>
     \<lparr>arrived = [], reading = 40, device = all_ok\<rparr>
     (example_state ''Spotify'' (Some [204, 255, 0])) =
   ([], Inr (example_state [] (Some [204, 255, 0]))) \<and>
   length (commands []) \<noteq> 1"
proof -
  have "loop_body (\<lambda>x. x) \<lparr>verbose = 0, persistent = 0, notify = 1\<rparr>
     \<lparr>arrived = [], reading = 40, device = all_ok\<rparr>
     (example_state ''Spotify'' (Some [204, 255, 0])) =
   ([], Inr (example_state [] (Some [204, 255, 0])))"
    by (simp add: loop_body_def example_state_def telegram_def andthen_def)
  then show ?thesis
    using resolve_spotify by simp
qed

text \<open>
  C5, amended: when the pending name matches no setting, the iteration raises no error,
  blinks nothing and issues no display command at all; it clears the pending cell, and
  its only output is the line of the verbose mode. The iteration after it, when nothing
  new is pending, is a Monitoring one, which issues one display command.
\<close>

theorem unmatched_discarded:
  assumes "NOTIFY s \<noteq> []"
    and "list_all complete_setting (notification_settings_list s)"
    and "resolve (NOTIFY s) (notification_settings_list s) = None"
  shows "loop_body rnd a inp s =
           ((if verbose a \<noteq> 0 then [Print (''Notification active: '' @ NOTIFY s)] else []),
            Inr (s\<lparr>NOTIFY := []\<rparr>)) \<and>
         commands (fst (loop_body rnd a inp s)) = [] \<and>
         (current_sampling s < length (cpu_load_cache s) \<and> device inp' 0 = DevOk \<longrightarrow>
            length (commands (fst (loop_body rnd a inp' (s\<lparr>NOTIFY := []\<rparr>)))) = 1)"
proof -
  have 1: "loop_body rnd a inp s =
           ((if verbose a \<noteq> 0 then [Print (''Notification active: '' @ NOTIFY s)] else []),
            Inr (s\<lparr>NOTIFY := []\<rparr>))"
    unfolding loop_body_def scan_settings_unresolved [OF assms(2,3)]
    using assms(1) by (simp add: andthen_Inr)
  have 2: "commands (fst (loop_body rnd a inp s)) = []"
    unfolding 1 by simp
  have 3: "length (commands (fst (loop_body rnd a inp' (s\<lparr>NOTIFY := []\<rparr>)))) = 1"
    if "current_sampling s < length (cpu_load_cache s) \<and> device inp' 0 = DevOk"
  proof -
    let ?s = "s\<lparr>NOTIFY := []\<rparr>"
    have n: "NOTIFY ?s = []" by simp
    have c: "current_sampling ?s < length (cpu_load_cache ?s)" using that by simp
    have d: "device inp' 0 = DevOk \<or> device inp' 0 = DevFailed \<and> persistent a \<noteq> 0"
      using that by simp
    show ?thesis
      unfolding monitoring_tick [OF n c d] Let_def
      by (simp add: commands_append)
  qed
  from 1 2 3 show ?thesis by simp
qed

theorem unmatched_discarded_witness:
  "NOTIFY (example_state ''Spotify'' (Some [204, 255, 0])) = ''Spotify'' \<and>
   resolve ''Spotify'' [telegram] = None \<and>
   loop_body (\<lambda>x. x) \<lparr>verbose = 1, persistent = 0, notify = 1\<rparr>
     \<lparr>arrived = [], reading = 40, device = all_ok\<rparr>
     (example_state ''Spotify'' (Some [204, 255, 0])) =
   ([Print ''Notification active: Spotify''], Inr (example_state [] (Some [204, 255, 0]))) \<and>
   all_ok 0 = DevOk \<and>
   length (commands (fst (loop_body (\<lambda>x. x) \<lparr>verbose = 1, persistent = 0, notify = 1\<rparr>
     \<lparr>arrived = [], reading = 40, device = all_ok\<rparr>
     (example_state [] (Some [204, 255, 0]))))) = 1"
proof -
  let ?s = "example_state ''Spotify'' (Some [204, 255, 0])"
  let ?inp = "\<lparr>arrived = [], reading = 40, device = all_ok\<rparr>"
  let ?a = "\<lparr>verbose = 1, persistent = 0, notify = 1\<rparr>"
  have 1: "NOTIFY ?s \<noteq> []" by (simp add: example_state_fields)
  have 2: "list_all complete_setting (notification_settings_list ?s)"
    unfolding example_state_fields by (simp add: telegram_complete)
  have 3: "resolve (NOTIFY ?s) (notification_settings_list ?s) = None"
    unfolding example_state_fields by (rule resolve_spotify)
  note t = unmatched_discarded [OF 1 2 3, of "\<lambda>x. x" ?a ?inp ?inp]
  have h: "current_sampling ?s < length (cpu_load_cache ?s) \<and> device ?inp 0 = DevOk"
    by (simp add: example_state_fields SAMPLES_def all_ok_def)
  from t have a: "loop_body (\<lambda>x. x) ?a ?inp ?s =
      ([Print ''Notification active: Spotify''], Inr (example_state [] (Some [204, 255, 0])))"
    by (simp add: example_state_fields example_state_clear)
  from t h have b: "length (commands (fst (loop_body (\<lambda>x. x) ?a ?inp
      (example_state [] (Some [204, 255, 0]))))) = 1"
    unfolding example_state_clear by simp
  have "all_ok 0 = DevOk" by (simp add: all_ok_def)
  with a b resolve_spotify show ?thesis
    by (simp add: example_state_fields)
qed

text \<open>
  C6: the load colour is a name the Monitoring branch binds. With a notification of a
  configured name pending at the first iteration, the blink branch reads the name
  unbound and the process ends on NameError, with no display command.
\<close>

theorem blink_before_first_tick_unbound:
  "main (\<lambda>x. x) example_int example_float \<lparr>verbose = 0, persistent = 0, notify = 1\<rparr>
     (Inr [telegram_node])
     [\<lparr>arrived = [[''Telegram Desktop'']], reading = 40, device = all_ok\<rparr>] =
   ([], Inl (NameError ''meter_color''))"
  by (simp add: main_def startup_def parse_notification_settings_from_xml_def telegram_node_def
      assign_element_def example_int_def example_float_def empty_object_def has_key_def
      NOTIFICATION_SETTINGS_MANDATORY_ATTRIBUTES_def andthen_def loop_body_def
      notification_event_def)

subsection \<open>Claims about loading the settings\<close>

text \<open>
  C9, as the claim states it, fails: the values of a record are converted before its
  fields are checked, so a record that lacks fields and holds a count that is no integer
  ends the start-up on the error of \<^verbatim>\<open>int\<close>, which names no field.
\<close>

theorem missing_field_other_error:
  "''name'' \<notin> fst ` set bad_count_node \<and> ''interval'' \<notin> fst ` set bad_count_node \<and>
   main (\<lambda>x. x) example_int example_float \<lparr>verbose = 0, persistent = 0, notify = 1\<rparr>
     (Inr [bad_count_node]) [\<lparr>arrived = [], reading = 40, device = all_ok\<rparr>] =
   ([Print ''Error in executing notification monitoring setup; check notification setting file'',
     PrintRepr (BadInt ''2.5'')],
    Inl SystemExit)"
  by (simp add: main_def startup_def parse_notification_settings_from_xml_def bad_count_node_def
      assign_element_def example_int_def empty_object_def andthen_def)

text \<open>
  C9, amended: with notification monitoring requested, a settings document in which a
  record lacks a required field ends the start-up: nothing but the two lines of the error
  is printed and the process exits, whatever inputs the main loop would have had. When
  the records before it load and the values of the record itself convert, the error is
  the ValueError whose message ends with the name of the first required field that the
  record lacks.
\<close>

theorem missing_field_aborts_startup:
  assumes "notify a \<noteq> 0"
    and "parse_nodes int_of float_of pre [] = Inr out"
    and "assign_elements int_of float_of node empty_object = Inr obj"
    and "find (\<lambda>b. b \<notin> fst ` set node) NOTIFICATION_SETTINGS_MANDATORY_ATTRIBUTES = Some attr"
  shows "main rnd int_of float_of a (Inr (pre @ node # post)) inps =
           ([Print ''Error in executing notification monitoring setup; check notification setting file'',
             PrintRepr (ValueError (''Missing element in notification settings XML: '' @ attr))],
            Inl SystemExit) \<and>
         attr \<in> set NOTIFICATION_SETTINGS_MANDATORY_ATTRIBUTES \<and> attr \<notin> fst ` set node \<and>
         (\<forall>nodes. (\<exists>x \<in> set nodes. \<exists>b \<in> set NOTIFICATION_SETTINGS_MANDATORY_ATTRIBUTES.
                      b \<notin> fst ` set x) \<longrightarrow>
            (\<exists>e. main rnd int_of float_of a (Inr nodes) inps =
               ([Print ''Error in executing notification monitoring setup; check notification setting file'',
                 PrintRepr e],
                Inl SystemExit)))"
proof -
  have "parse_notification_settings_from_xml int_of float_of (Inr (pre @ node # post)) =
      Inl (ValueError (''Missing element in notification settings XML: '' @ attr))"
    by (simp add: parse_notification_settings_from_xml_def parse_nodes_missing [OF assms(2-4)])
  from main_settings_error [OF assms(1) this]
  have 1: "main rnd int_of float_of a (Inr (pre @ node # post)) inps =
           ([Print ''Error in executing notification monitoring setup; check notification setting file'',
             PrintRepr (ValueError (''Missing element in notification settings XML: '' @ attr))],
            Inl SystemExit)" .
  have 2: "attr \<in> set NOTIFICATION_SETTINGS_MANDATORY_ATTRIBUTES \<and> attr \<notin> fst ` set node"
    using assms(4) unfolding find_Some_iff by (metis nth_mem)
  have 3: "\<exists>e. main rnd int_of float_of a (Inr nodes) inps =
               ([Print ''Error in executing notification monitoring setup; check notification setting file'',
                 PrintRepr e],
                Inl SystemExit)"
    if "\<exists>x \<in> set nodes. \<exists>b \<in> set NOTIFICATION_SETTINGS_MANDATORY_ATTRIBUTES. b \<notin> fst ` set x"
    for nodes
  proof -
    from that obtain x b where "x \<in> set nodes"
      "b \<in> set NOTIFICATION_SETTINGS_MANDATORY_ATTRIBUTES" "b \<notin> fst ` set x"
      by blast
    from parse_nodes_incomplete [OF this, of int_of float_of "[]"]
    obtain e where "parse_notification_settings_from_xml int_of float_of (Inr nodes) = Inl e"
      unfolding parse_notification_settings_from_xml_def by auto
    from main_settings_error [OF assms(1) this] show ?thesis by blast
  qed
  from 1 2 3 show ?thesis by simp
qed

lemma parse_telegram: "parse_nodes example_int example_float [telegram_node] [] = Inr [telegram]"
  by (simp add: telegram_node_def telegram_def assign_element_def example_int_def example_float_def
      empty_object_def has_key_def NOTIFICATION_SETTINGS_MANDATORY_ATTRIBUTES_def)

lemma assign_spotify:
  "assign_elements example_int example_float spotify_node empty_object =
     Inr \<lparr>so_name = Some (Text ''Spotify''), so_color = Some [255, 255, 255],
          so_count = Some 1, so_interval = None\<rparr>"
  by (simp add: spotify_node_def assign_element_def example_int_def empty_object_def)

lemma find_spotify:
  "find (\<lambda>b. b \<notin> fst ` set spotify_node) NOTIFICATION_SETTINGS_MANDATORY_ATTRIBUTES =
     Some ''interval''"
  by (simp add: spotify_node_def NOTIFICATION_SETTINGS_MANDATORY_ATTRIBUTES_def)

theorem missing_field_aborts_startup_witness:
  "parse_nodes example_int example_float [telegram_node] [] = Inr [telegram] \<and>
   find (\<lambda>b. b \<notin> fst ` set spotify_node) NOTIFICATION_SETTINGS_MANDATORY_ATTRIBUTES =
     Some ''interval'' \<and>
   main (\<lambda>x. x) example_int example_float \<lparr>verbose = 0, persistent = 0, notify = 1\<rparr>
     (Inr [telegram_node, spotify_node])
     [\<lparr>arrived = [], reading = 40, device = all_ok\<rparr>] =
   ([Print ''Error in executing notification monitoring setup; check notification setting file'',
     PrintRepr (ValueError ''Missing element in notification settings XML: interval'')],
    Inl SystemExit)"
proof -
  have n: "notify \<lparr>verbose = 0, persistent = 0, notify = 1\<rparr> \<noteq> 0" by simp
  note t = missing_field_aborts_startup [OF n parse_telegram assign_spotify find_spotify,
      of "\<lambda>x. x" "[]" "[\<lparr>arrived = [], reading = 40, device = all_ok\<rparr>]", THEN conjunct1]
  from t parse_telegram find_spotify show ?thesis by simp
qed

end
